theory Spec2Isabelle
  imports Complex_Main "HOL-Library.Word" "HOL-Library.Log_Nat"
begin

section \<open>Shared data of the sketches\<close>

text \<open>
  The firmware runs on a 32-bit board: \<open>unsigned long\<close> (the type of \<open>millis()\<close> and of
  every timestamp) is a 32-bit word whose arithmetic wraps around.

  A finite C \<open>float\<close> or \<open>double\<close> is modelled by the real number it denotes. Copies and
  comparisons are exact. An arithmetic operation, a conversion from \<open>double\<close> to \<open>float\<close> and
  the reading of a decimal literal give the exact result rounded to the nearest value of the
  format, ties to even: \<open>f32\<close> for IEEE 754 binary32 (\<open>float\<close>), \<open>f64\<close> for binary64
  (\<open>double\<close>), as the target's arithmetic does. Infinities and NaN are not represented: a
  result beyond the range of the format is outside the model.
\<close>

type_synonym u8 = "8 word"
type_synonym u16 = "16 word"
type_synonym u32 = "32 word"

text \<open>\<open>ilog2 x\<close> is the exponent of \<open>x\<close>, the integer \<open>e\<close> with \<open>2^e \<le> |x| < 2^(e+1)\<close>, computed on
  integers through the bit length.\<close>

definition ilog2 :: "real \<Rightarrow> int" where
  "ilog2 x =
     (if 1 \<le> \<bar>x\<bar> then bitlen \<lfloor>\<bar>x\<bar>\<rfloor> - 1 else - bitlen (\<lceil>1 / \<bar>x\<bar>\<rceil> - 1))"

definition pow2 :: "int \<Rightarrow> real" where
  "pow2 k = (if 0 \<le> k then 2 ^ nat k else 1 / 2 ^ nat (- k))"

definition round_ties_even :: "real \<Rightarrow> int" where
  "round_ties_even y =
     (if y - of_int \<lfloor>y\<rfloor> < 1 / 2 then \<lfloor>y\<rfloor>
      else if y - of_int \<lfloor>y\<rfloor> > 1 / 2 then \<lfloor>y\<rfloor> + 1
      else if even \<lfloor>y\<rfloor> then \<lfloor>y\<rfloor> else \<lfloor>y\<rfloor> + 1)"

text \<open>Rounding to a binary format with \<open>p\<close> significant bits and least normal exponent
  \<open>emin\<close>: the nearest multiple of the spacing of the format at \<open>x\<close>, which is
  \<open>2^(e - (p - 1))\<close> for the exponent \<open>e\<close> of \<open>x\<close> and stays at \<open>2^(emin - (p - 1))\<close> below the
  normal range.\<close>

definition fp_round :: "nat \<Rightarrow> int \<Rightarrow> real \<Rightarrow> real" where
  "fp_round p emin x =
     (if x = 0 then 0
      else of_int (round_ties_even (x / pow2 (max (ilog2 x) emin - (int p - 1))))
           * pow2 (max (ilog2 x) emin - (int p - 1)))"

definition f32 :: "real \<Rightarrow> real" where
  "f32 = fp_round 24 (- 126)"

definition f64 :: "real \<Rightarrow> real" where
  "f64 = fp_round 53 (- 1022)"

text \<open>The two levels \<open>digitalRead\<close> returns and \<open>digitalWrite\<close> takes. \<open>LOW\<close> is 0, so a
  zero-initialised static holds \<open>LOW\<close>, and \<open>if (pin)\<close> tests for \<open>HIGH\<close>.\<close>

datatype pin_level = LOW | HIGH

datatype pin = TOASTING_PIN | CANCEL_PIN | BTN_PIN

text \<open>Arguments of a \<open>printf\<close>-style call, and the text handed to the display: either a literal
  or the contents of \<open>str_buf\<close> after \<open>sprintf(str_buf, fmt, args)\<close>.\<close>

datatype arg = AInt int | AFloat real | AStr string

datatype lcd_text = Lit string | Sprintf string "arg list"

definition CANCEL_THRESHOLD :: real where
  "CANCEL_THRESHOLD = 40"

definition DEBOUNCE_DELAY :: u32 where
  "DEBOUNCE_DELAY = 30"

definition SAMPLE_DELAY :: u32 where
  "SAMPLE_DELAY = 500"

definition ADC_MAX :: real where
  "ADC_MAX = 1024"

definition ADC_VOLTAGE :: real where
  "ADC_VOLTAGE = f64 3.3"

text \<open>Modelled from the spec: \<open>NUM_CHANNELS\<close> is \<open>EI_CLASSIFIER_RAW_SAMPLES_PER_FRAME\<close>, a macro of
  the deployed inferencing library, which is not in the repository. The specification names
  nine channels (temperature, humidity, CO2, TVOC, VOC, NO2, ethanol, CO, NH3); the sketch
  fills \<open>frame_buf[0..8]\<close> and its two constant tables have nine entries each, so 9 is also
  the only value under which the sketch stays inside its arrays.\<close>

definition NUM_CHANNELS :: nat where
  "NUM_CHANNELS = 9"

text \<open>The two \<open>static const float\<close> tables: each initialiser is a \<open>double\<close> literal converted
  to \<open>float\<close>.\<close>

definition means :: "real list" where
  "means = map (\<lambda>d. f32 (f64 d))
     [75.502, 8.4883, 14913.9847, 32933.7305, 2.5958, 2.2113, 2.6475, 2.1576, 2.277]"

definition std_devs :: "real list" where
  "std_devs = map (\<lambda>d. f32 (f64 d))
     [23.2281, 9.0292, 18230.8385, 24429.9224, 0.3656, 0.5479, 0.3673, 0.4927, 0.593]"

text \<open>Modelled from the spec: the status code of a sensor read that succeeded ("a blocking
  read returning a status code that must be checked"). \<open>STATUS_OK\<close> is a macro of
  \<open>sensirion_common.h\<close>, which is not in the repository; the vendor's value is 0, and no
  general statement below depends on the value.\<close>

definition STATUS_OK :: int where
  "STATUS_OK = 0"

text \<open>Modelled from the spec: the status code the window-slice callback returns on success.
  \<open>EIDSP_OK\<close> is a constant of the inferencing library, which is not in the repository; the
  vendor's value is 0, and no general statement below depends on the value.\<close>

definition EIDSP_OK :: int where
  "EIDSP_OK = 0"

section \<open>The inferencing library as the sketch sees it\<close>

text \<open>\<open>signal_t\<close>: the length of the window and the callback the classifier pulls slices
  with. A slot of the output buffer the callback filled from outside \<open>input_buf\<close> holds no
  defined value: \<open>None\<close>.\<close>

record signal_t =
  total_length :: nat
  get_data :: "nat \<Rightarrow> nat \<Rightarrow> int \<times> real option list"

text \<open>\<open>ei_impulse_result_t\<close>: \<open>classification[i].value\<close> for the label indices
  \<open>i < EI_CLASSIFIER_LABEL_COUNT\<close> (a C++ array has at least one element, so index 0 exists),
  and the three timing fields.\<close>

record ei_impulse_result_t =
  classification :: "nat \<Rightarrow> real"
  timing_dsp :: int
  timing_classification :: int
  timing_anomaly :: int

text \<open>What \<open>perfect-toast-machine_inferencing.h\<close> provides: the macros the sketch uses, the
  label table, and the classifier itself, an opaque function of the signal that returns its
  return code and the result structure.\<close>

record ei_library =
  EI_CLASSIFIER_RAW_SAMPLE_COUNT :: nat
  EI_CLASSIFIER_DSP_INPUT_FRAME_SIZE :: nat
  EI_CLASSIFIER_LABEL_COUNT :: nat
  ei_classifier_inferencing_categories :: "nat \<Rightarrow> string"
  run_classifier :: "signal_t \<Rightarrow> int \<times> ei_impulse_result_t"

definition WINDOW_LEN :: "ei_library \<Rightarrow> nat" where
  "WINDOW_LEN L = EI_CLASSIFIER_RAW_SAMPLE_COUNT L"

section \<open>perfect-toast-machine.ino\<close>

text \<open>The deployed sketch. The rolling-inference test sketch has the same callback and the
  same two window loops, word for word; the static-inference test has the same callback.\<close>

subsection \<open>The callback\<close>

text \<open>\<open>get_signal_data\<close> copies \<open>length\<close> floats from \<open>input_buf + offset\<close> and returns
  \<open>EIDSP_OK\<close>. It compares nothing with the size of \<open>input_buf\<close>.\<close>

definition get_signal_data :: "real list \<Rightarrow> nat \<Rightarrow> nat \<Rightarrow> int \<times> real option list" where
  "get_signal_data input_buf offset len =
     (EIDSP_OK,
      map (\<lambda>i. if offset + i < length input_buf then Some (input_buf ! (offset + i)) else None)
          [0..<len])"

text \<open>The global \<open>signal\<close> as \<open>setup\<close> fills it, reading the current \<open>input_buf\<close>.\<close>

definition signal :: "ei_library \<Rightarrow> real list \<Rightarrow> signal_t" where
  "signal L input_buf =
     \<lparr>total_length = EI_CLASSIFIER_DSP_INPUT_FRAME_SIZE L, get_data = get_signal_data input_buf\<rparr>"

subsection \<open>The rolling window\<close>

text \<open>The two nested \<open>for\<close> loops of "Roll window": the assignments run in the order of the
  source, each reading the buffer as the previous ones left it. \<open>input_buf\<close> is declared with
  \<open>WINDOW_LEN * NUM_CHANNELS\<close> floats; with that length and a positive \<open>WINDOW_LEN\<close> (both are
  hypotheses of the statements about the window) every index of the loops lies inside it.\<close>

definition roll_row :: "nat \<Rightarrow> real list \<Rightarrow> real list" where
  "roll_row i buf =
     foldl (\<lambda>b j. b[(i * NUM_CHANNELS) + j := b ! (((i + 1) * NUM_CHANNELS) + j)])
           buf [0..<NUM_CHANNELS]"

definition roll_window :: "ei_library \<Rightarrow> real list \<Rightarrow> real list" where
  "roll_window L buf = foldl (\<lambda>b i. roll_row i b) buf [0..<WINDOW_LEN L - 1]"

definition final_frame_idx :: "ei_library \<Rightarrow> nat" where
  "final_frame_idx L = (WINDOW_LEN L - 1) * NUM_CHANNELS"

text \<open>The loop of "Standardize readings and put them into rolling window": a \<open>float\<close>
  subtraction and a \<open>float\<close> division, each rounded.\<close>

definition standardize_into :: "ei_library \<Rightarrow> real list \<Rightarrow> real list \<Rightarrow> real list" where
  "standardize_into L frame_buf buf =
     foldl (\<lambda>b j. b[final_frame_idx L + j
                      := f32 (f32 (frame_buf ! j - means ! j) / std_devs ! j)])
           buf [0..<NUM_CHANNELS]"

subsection \<open>One call of \<open>loop\<close>\<close>

text \<open>Everything \<open>loop\<close> reads from outside during one call: the two \<open>millis()\<close> values (the
  one compared and the one stored), the toasting pin, and what each sensor returns.\<close>

record loop_in =
  millis_gate :: u32
  millis_stamp :: u32
  toasting_in :: pin_level
  bme680_read_sensor_data :: int
  bme680_temperature :: real
  bme680_humidity :: real
  sgp_measure_iaq_blocking_read :: int
  sgp_tvoc :: u16
  sgp_co2 :: u16
  gm102b_vol :: real
  gm302b_vol :: real
  gm502b_vol :: real
  gm702b_vol :: real
  analogRead_NH3 :: int

text \<open>What a sketch does to the outside, in order: serial output, the classifier call, the
  sprite and the screen (\<open>SprFillRectBlack\<close> is \<open>spr.fillRect(0, 0, TFT_HEIGHT, TFT_WIDTH,
  TFT_BLACK)\<close>, \<open>TftFillScreenBlack\<close> is \<open>tft.fillScreen(TFT_BLACK)\<close>), and pin writes.\<close>

datatype event =
    SerialPrintln string
  | SerialPrintlnEmpty
  | SerialPrint arg
  | EiPrintf string "arg list"
  | RunClassifier signal_t
  | SprFillRectBlack
  | SprDrawString lcd_text int int
  | SprPushSprite int int
  | TftFillScreenBlack
  | TftDrawString string int int
  | DigitalWrite pin pin_level

text \<open>The statics and globals \<open>loop\<close> keeps between calls, and the level the cancel pin is
  driven to.\<close>

record ptm_state =
  input_buf :: "real list"
  sample_timestamp :: u32
  cancel_pin :: pin_level

definition crlf :: string where
  "crlf = [CHR 0x0D, CHR 0x0A]"

text \<open>The sensor block up to "Assign readings to buffer". The ammonia voltage is computed in
  \<open>double\<close> (a product and a quotient, each rounded) and stored in a \<open>float\<close>; the two
  \<open>uint16_t\<close> readings convert to \<open>float\<close> without rounding.\<close>

definition read_frame :: "loop_in \<Rightarrow> real list" where
  "read_frame inp =
     (let gm_no2_v = gm102b_vol inp;
          gm_eth_v = gm302b_vol inp;
          gm_voc_v = gm502b_vol inp;
          gm_co_v = gm702b_vol inp;
          nh3_v = f32 (f64 (f64 (of_int (analogRead_NH3 inp) * ADC_VOLTAGE) / ADC_MAX))
      in [bme680_temperature inp, bme680_humidity inp,
          of_nat (unat (sgp_co2 inp)), of_nat (unat (sgp_tvoc inp)),
          gm_voc_v, gm_no2_v, gm_eth_v, gm_co_v, nh3_v])"

definition print_predictions :: "ei_library \<Rightarrow> ei_impulse_result_t \<Rightarrow> event list" where
  "print_predictions L result =
     concat (map (\<lambda>i. [EiPrintf ''  %s: '' [AStr (ei_classifier_inferencing_categories L i)],
                       EiPrintf (''%.5f'' @ crlf) [AFloat (classification result i)]])
                 [0..<EI_CLASSIFIER_LABEL_COUNT L])"

definition push_frame :: "ei_library \<Rightarrow> real list \<Rightarrow> real list \<Rightarrow> real list" where
  "push_frame L frame_buf buf = standardize_into L frame_buf (roll_window L buf)"

definition loop :: "ei_library \<Rightarrow> loop_in \<Rightarrow> ptm_state \<Rightarrow> ptm_state \<times> event list" where
  "loop L inp s =
     (if millis_gate inp - sample_timestamp s \<ge> SAMPLE_DELAY then
        let s = s\<lparr>sample_timestamp := millis_stamp inp\<rparr>;
            toasting = toasting_in inp
        in if bme680_read_sensor_data inp \<noteq> 0 then
             (s, [SerialPrintln ''Error: Could not read from BME680''])
           else if sgp_measure_iaq_blocking_read inp \<noteq> STATUS_OK then
             (s, [SerialPrintln ''Error: Could not read from SGP30''])
           else
             let frame_buf = read_frame inp;
                 buf = push_frame L frame_buf (input_buf s);
                 s = s\<lparr>input_buf := buf\<rparr>;
                 (res, result) = run_classifier L (signal L buf);
                 time_to_burnt = classification result 0;
                 ev1 = [RunClassifier (signal L buf),
                        EiPrintf (''run_classifier returned: %d'' @ crlf) [AInt res],
                        EiPrintf (''Timing: DSP %d ms, inference %d ms, anomaly %d ms'' @ crlf)
                          [AInt (timing_dsp result), AInt (timing_classification result),
                           AInt (timing_anomaly result)],
                        EiPrintf (''Predictions:'' @ crlf) []]
                       @ print_predictions L result
                       @ [SprFillRectBlack,
                          SprDrawString (Sprintf ''%.0f'' [AFloat time_to_burnt]) 115 100]
             in if time_to_burnt < CANCEL_THRESHOLD then
                  (s\<lparr>cancel_pin := HIGH\<rparr>,
                   ev1 @ [DigitalWrite CANCEL_PIN HIGH, SprDrawString (Lit ''Done!'') 90 30,
                          SprPushSprite 0 0])
                else
                  (s\<lparr>cancel_pin := LOW\<rparr>,
                   ev1 @ [DigitalWrite CANCEL_PIN LOW]
                       @ (if toasting = HIGH then [SprDrawString (Lit ''Toasting...'') 50 30]
                          else [])
                       @ [SprPushSprite 0 0])
      else (s, []))"

section \<open>toast-odor-data-collection.ino\<close>

definition NUM_MODES :: u8 where
  "NUM_MODES = 4"

definition MODE_IDLE :: u8 where
  "MODE_IDLE = 0"

definition MODE_BACKGROUND :: u8 where
  "MODE_BACKGROUND = 1"

definition MODE_TOASTING :: u8 where
  "MODE_TOASTING = 2"

definition MODE_BURNT :: u8 where
  "MODE_BURNT = 3"

definition PA_IN_KPA :: real where
  "PA_IN_KPA = 1000.0"

text \<open>The statics of \<open>loop\<close>. \<open>btn_state\<close> has no initialiser, so it starts as 0, that is
  \<open>LOW\<close>; the two timestamps take \<open>millis()\<close> when \<open>loop\<close> is first entered.\<close>

record collect_state =
  mode :: u8
  btn_state :: pin_level
  last_btn_state :: pin_level
  last_dbnc_time :: u32
  sample_timestamp_dc :: u32
  start_timestamp :: u32

definition collect_init :: "u32 \<Rightarrow> u32 \<Rightarrow> collect_state" where
  "collect_init t_sample t_start =
     \<lparr>mode = MODE_IDLE, btn_state = LOW, last_btn_state = HIGH, last_dbnc_time = 0,
      sample_timestamp_dc = t_sample, start_timestamp = t_start\<rparr>"

text \<open>What one call of \<open>loop\<close> reads: the button, the value of each \<open>millis()\<close> call in the
  order of the source (after a level change, in the debounce test, on entering BACKGROUND,
  in the sample test, for the new sample timestamp), and the sensors.\<close>

record collect_in =
  btn_reading :: pin_level
  millis_dbnc :: u32
  millis_check :: u32
  millis_start :: u32
  millis_gate_dc :: u32
  millis_stamp_dc :: u32
  gm102b_vol_dc :: real
  gm302b_vol_dc :: real
  gm502b_vol_dc :: real
  gm702b_vol_dc :: real
  bme680_read_sensor_data_dc :: int
  bme680_temperature_dc :: real
  bme680_humidity_dc :: real
  bme680_pressure_dc :: real
  sgp_measure_iaq_blocking_read_dc :: int
  sgp_tvoc_dc :: u16
  sgp_co2_dc :: u16

text \<open>The body of \<open>if (btn_state == LOW)\<close>: the mode steps, the screen is redrawn.\<close>

definition advance_mode :: "collect_in \<Rightarrow> collect_state \<Rightarrow> collect_state \<times> event list" where
  "advance_mode inp s =
     (let s = s\<lparr>mode := mode s + 1\<rparr>;
          s = (if mode s \<ge> NUM_MODES then s\<lparr>mode := MODE_IDLE\<rparr> else s)
      in if mode s = MODE_IDLE then
           (s, [TftFillScreenBlack, TftDrawString ''IDLE'' 30 100, SerialPrintlnEmpty])
         else if mode s = MODE_BACKGROUND then
           (s\<lparr>start_timestamp := millis_start inp\<rparr>,
            [TftFillScreenBlack, TftDrawString ''BACKGROUND'' 30 100,
             SerialPrintln ''timestamp,temp,humd,pres,co2,voc1,voc2,no2,eth,co,state''])
         else if mode s = MODE_TOASTING then
           (s, [TftFillScreenBlack, TftDrawString ''TOASTING'' 30 100])
         else if mode s = MODE_BURNT then
           (s, [TftFillScreenBlack, TftDrawString ''BURNT'' 30 100])
         else (s, [TftFillScreenBlack]))"

text \<open>The three "Debounce button" blocks of \<open>loop\<close>.\<close>

definition debounce_button :: "collect_in \<Rightarrow> collect_state \<Rightarrow> collect_state \<times> event list" where
  "debounce_button inp s =
     (let s = (if btn_reading inp \<noteq> last_btn_state s
               then s\<lparr>last_dbnc_time := millis_dbnc inp\<rparr> else s);
          (s, ev) =
            (if millis_check inp - last_dbnc_time s > DEBOUNCE_DELAY then
               if btn_reading inp \<noteq> btn_state s then
                 let s = s\<lparr>btn_state := btn_reading inp\<rparr>
                 in if btn_state s = LOW then advance_mode inp s else (s, [])
               else (s, [])
             else (s, []))
      in (s\<lparr>last_btn_state := btn_reading inp\<rparr>, ev))"

text \<open>The block "Only collect if not in idle".\<close>

definition collect_sample :: "collect_in \<Rightarrow> collect_state \<Rightarrow> collect_state \<times> event list" where
  "collect_sample inp s =
     (if mode s > MODE_IDLE then
        if millis_gate_dc inp - sample_timestamp_dc s \<ge> SAMPLE_DELAY then
          let s = s\<lparr>sample_timestamp_dc := millis_stamp_dc inp\<rparr>;
              gm_no2_v = gm102b_vol_dc inp;
              gm_eth_v = gm302b_vol_dc inp;
              gm_voc_v = gm502b_vol_dc inp;
              gm_co_v = gm702b_vol_dc inp
          in if bme680_read_sensor_data_dc inp \<noteq> 0 then
               (s, [SerialPrintln ''Error: Could not read from BME680''])
             else if sgp_measure_iaq_blocking_read_dc inp \<noteq> STATUS_OK then
               (s, [SerialPrintln ''Error: Could not read from SGP30''])
             else
               (s, [SerialPrint (AInt (uint (sample_timestamp_dc s - start_timestamp s))),
                    SerialPrint (AStr '',''),
                    SerialPrint (AFloat (bme680_temperature_dc inp)), SerialPrint (AStr '',''),
                    SerialPrint (AFloat (bme680_humidity_dc inp)), SerialPrint (AStr '',''),
                    SerialPrint (AFloat (f64 (bme680_pressure_dc inp / PA_IN_KPA))),
                    SerialPrint (AStr '',''),
                    SerialPrint (AInt (uint (sgp_co2_dc inp))), SerialPrint (AStr '',''),
                    SerialPrint (AInt (uint (sgp_tvoc_dc inp))), SerialPrint (AStr '',''),
                    SerialPrint (AFloat gm_voc_v), SerialPrint (AStr '',''),
                    SerialPrint (AFloat gm_no2_v), SerialPrint (AStr '',''),
                    SerialPrint (AFloat gm_eth_v), SerialPrint (AStr '',''),
                    SerialPrint (AFloat gm_co_v), SerialPrint (AStr '',''),
                    SerialPrint (AInt (uint (mode s))), SerialPrintlnEmpty])
        else (s, [])
      else (s, []))"

definition collect_loop :: "collect_in \<Rightarrow> collect_state \<Rightarrow> collect_state \<times> event list" where
  "collect_loop inp s =
     (let (s, ev1) = debounce_button inp s;
          (s, ev2) = collect_sample inp s
      in (s, ev1 @ ev2))"

text \<open>\<open>loop\<close> called once for each element of a list of inputs.\<close>

fun collect_run :: "collect_in list \<Rightarrow> collect_state \<Rightarrow> collect_state \<times> event list" where
  "collect_run [] s = (s, [])"
| "collect_run (x # xs) s =
     (let (s1, ev1) = collect_loop x s;
          (s2, ev2) = collect_run xs s1
      in (s2, ev1 @ ev2))"

section \<open>Notions used in the statements\<close>

text \<open>The standardized frame the specification speaks of: channel \<open>j\<close> of a raw frame,
  minus its training mean, over its training standard deviation, evaluated in \<open>float\<close>
  arithmetic.\<close>

definition standardize :: "real list \<Rightarrow> real list" where
  "standardize frame_buf =
     map (\<lambda>j. f32 (f32 (frame_buf ! j - means ! j) / std_devs ! j)) [0..<NUM_CHANNELS]"

text \<open>The window after the frames \<open>fs\<close> were pushed one after the other.\<close>

definition pushes :: "ei_library \<Rightarrow> real list list \<Rightarrow> real list \<Rightarrow> real list" where
  "pushes L fs buf = foldl (\<lambda>b f. push_frame L f b) buf fs"

text \<open>What the classifier returns in a call of \<open>loop\<close> that gets as far as calling it.\<close>

definition tick_result :: "ei_library \<Rightarrow> loop_in \<Rightarrow> ptm_state \<Rightarrow> ei_impulse_result_t" where
  "tick_result L inp s =
     snd (run_classifier L (signal L (push_frame L (read_frame inp) (input_buf s))))"

text \<open>The pin writes and the strings drawn among the events of a call.\<close>

fun pin_writes :: "event list \<Rightarrow> (pin \<times> pin_level) list" where
  "pin_writes [] = []"
| "pin_writes (DigitalWrite p l # evs) = (p, l) # pin_writes evs"
| "pin_writes (e # evs) = pin_writes evs"

fun drawn :: "event list \<Rightarrow> lcd_text list" where
  "drawn [] = []"
| "drawn (SprDrawString txt x y # evs) = txt # drawn evs"
| "drawn (e # evs) = drawn evs"

fun classifier_calls :: "event list \<Rightarrow> nat" where
  "classifier_calls [] = 0"
| "classifier_calls (RunClassifier sig # evs) = Suc (classifier_calls evs)"
| "classifier_calls (e # evs) = classifier_calls evs"

text \<open>The number of calls of \<open>loop\<close>, along a list of inputs, that change the mode.\<close>

fun mode_transitions :: "collect_in list \<Rightarrow> collect_state \<Rightarrow> nat" where
  "mode_transitions [] s = 0"
| "mode_transitions (x # xs) s =
     (if mode (fst (collect_loop x s)) \<noteq> mode s then 1 else 0)
     + mode_transitions xs (fst (collect_loop x s))"

text \<open>The mode after the one given, as \<open>loop\<close> computes it: one up, and back to
  \<open>MODE_IDLE\<close> from the last.\<close>

definition next_mode :: "u8 \<Rightarrow> u8" where
  "next_mode m = (if m + 1 \<ge> NUM_MODES then MODE_IDLE else m + 1)"

text \<open>The four statics the debouncer works on (mode, debounced level, last raw level, time
  of the last raw change), and one call of \<open>loop\<close> seen on them alone. These are not part
  of the sketch: they are shown below to agree with \<open>collect_loop\<close> on every input and state,
  and serve to run \<open>collect_loop\<close> on concrete lists of inputs.\<close>

type_synonym dbnc = "u8 \<times> pin_level \<times> pin_level \<times> u32"

definition dbnc_of :: "collect_state \<Rightarrow> dbnc" where
  "dbnc_of s = (mode s, btn_state s, last_btn_state s, last_dbnc_time s)"

fun dbnc_time :: "collect_in \<Rightarrow> dbnc \<Rightarrow> u32" where
  "dbnc_time x (m, b, l, d) = (if btn_reading x \<noteq> l then millis_dbnc x else d)"

fun dbnc_commit :: "collect_in \<Rightarrow> dbnc \<Rightarrow> bool" where
  "dbnc_commit x (m, b, l, d) =
     (millis_check x - dbnc_time x (m, b, l, d) > DEBOUNCE_DELAY \<and> btn_reading x \<noteq> b)"

fun dbnc_step :: "collect_in \<Rightarrow> dbnc \<Rightarrow> dbnc" where
  "dbnc_step x (m, b, l, d) =
     (if dbnc_commit x (m, b, l, d) \<and> btn_reading x = LOW then next_mode m else m,
      if dbnc_commit x (m, b, l, d) then btn_reading x else b,
      btn_reading x,
      dbnc_time x (m, b, l, d))"

fun dbnc_run :: "collect_in list \<Rightarrow> dbnc \<Rightarrow> dbnc" where
  "dbnc_run [] v = v"
| "dbnc_run (x # xs) v = dbnc_run xs (dbnc_step x v)"

fun dbnc_transitions :: "collect_in list \<Rightarrow> dbnc \<Rightarrow> nat" where
  "dbnc_transitions [] v = 0"
| "dbnc_transitions (x # xs) v =
     (if fst (dbnc_step x v) \<noteq> fst v then 1 else 0) + dbnc_transitions xs (dbnc_step x v)"

text \<open>A bouncing button: from the call that sees the level change (and stamps the time of
  the change) to any later call that still sees the same level, no more than
  \<open>DEBOUNCE_DELAY\<close> ms pass on the millisecond counter. \<open>prev\<close> is the level of the previous
  call, \<open>tchg\<close> the time of the last change seen, if any.\<close>

fun bouncing :: "pin_level \<Rightarrow> u32 option \<Rightarrow> collect_in list \<Rightarrow> bool" where
  "bouncing prev tchg [] = True"
| "bouncing prev tchg (x # xs) =
     (let tchg1 = (if btn_reading x \<noteq> prev then Some (millis_dbnc x) else tchg)
      in (case tchg1 of None \<Rightarrow> True | Some t \<Rightarrow> millis_check x - t \<le> DEBOUNCE_DELAY)
         \<and> bouncing (btn_reading x) tchg1 xs)"

section \<open>Concrete inputs\<close>

text \<open>A library of window length \<open>n\<close> whose classifier answers \<open>v\<close> whatever the window.\<close>

definition stub_library :: "nat \<Rightarrow> real \<Rightarrow> ei_library" where
  "stub_library n v =
     \<lparr>EI_CLASSIFIER_RAW_SAMPLE_COUNT = n, EI_CLASSIFIER_DSP_INPUT_FRAME_SIZE = n * 9,
      EI_CLASSIFIER_LABEL_COUNT = 1,
      ei_classifier_inferencing_categories = (\<lambda>i. ''time_to_burnt''),
      run_classifier = (\<lambda>sig. (0, \<lparr>classification = (\<lambda>i. v), timing_dsp = 12,
                                     timing_classification = 3, timing_anomaly = 0\<rparr>))\<rparr>"

text \<open>A call at time \<open>t\<close> with the toasting pin at \<open>lvl\<close>, the BME680 returning \<open>bme\<close> and the
  SGP30 returning \<open>sgp\<close>.\<close>

definition tick_in :: "u32 \<Rightarrow> pin_level \<Rightarrow> int \<Rightarrow> int \<Rightarrow> loop_in" where
  "tick_in t lvl bme sgp =
     \<lparr>millis_gate = t, millis_stamp = t, toasting_in = lvl,
      bme680_read_sensor_data = bme, bme680_temperature = 30, bme680_humidity = 40,
      sgp_measure_iaq_blocking_read = sgp, sgp_tvoc = 10, sgp_co2 = 400,
      gm102b_vol = 2, gm302b_vol = 3, gm502b_vol = 2, gm702b_vol = 2, analogRead_NH3 = 512\<rparr>"

text \<open>The state in which \<open>loop\<close> is first entered at time \<open>t0\<close>: the window zero-filled, the
  cancel pin at its reset level.\<close>

definition boot_state :: "ei_library \<Rightarrow> u32 \<Rightarrow> ptm_state" where
  "boot_state L t0 =
     \<lparr>input_buf = replicate (WINDOW_LEN L * NUM_CHANNELS) 0, sample_timestamp = t0,
      cancel_pin = LOW\<rparr>"

definition frame_a :: "real list" where
  "frame_a = [1, 2, 3, 4, 5, 6, 7, 8, 9]"

definition frame_b :: "real list" where
  "frame_b = [10, 20, 30, 40, 50, 60, 70, 80, 90]"

definition frame_c :: "real list" where
  "frame_c = [0, 0, 0, 0, 0, 0, 0, 0, 0]"

text \<open>A call of the data-collection \<open>loop\<close> in which every \<open>millis()\<close> returns \<open>t\<close> and the
  button reads \<open>lvl\<close>.\<close>

definition poll :: "u32 \<Rightarrow> pin_level \<Rightarrow> collect_in" where
  "poll t lvl =
     \<lparr>btn_reading = lvl, millis_dbnc = t, millis_check = t, millis_start = t,
      millis_gate_dc = t, millis_stamp_dc = t,
      gm102b_vol_dc = 2, gm302b_vol_dc = 3, gm502b_vol_dc = 2, gm702b_vol_dc = 2,
      bme680_read_sensor_data_dc = 0, bme680_temperature_dc = 30, bme680_humidity_dc = 40,
      bme680_pressure_dc = 101325, sgp_measure_iaq_blocking_read_dc = 0,
      sgp_tvoc_dc = 10, sgp_co2_dc = 400\<rparr>"

text \<open>A press at time \<open>t\<close> held for more than the debounce delay, then the release,
  held as long.\<close>

definition press :: "u32 \<Rightarrow> collect_in list" where
  "press t = [poll t LOW, poll (t + 31) LOW, poll (t + 500) HIGH, poll (t + 531) HIGH]"

section \<open>The rolling window: what the loops compute\<close>

text \<open>The inner copy loop, element by element. Source and target ranges do not overlap
  (\<open>a + n \<le> c\<close>), so every read sees the buffer as it was before the loop.\<close>

lemma copy_loop_length:
  "length (foldl (\<lambda>b j. b[a + j := b ! (c + j)]) buf [0..<n]) = length buf"
  by (induction n) simp_all

lemma copy_loop_nth:
  assumes "a + n \<le> c"
  shows "foldl (\<lambda>b j. b[a + j := b ! (c + j)]) buf [0..<n] ! k
           = (if a \<le> k \<and> k < a + n \<and> k < length buf then buf ! (k - a + c) else buf ! k)"
  using assms
proof (induction n arbitrary: k)
  case 0
  then show ?case by auto
next
  case (Suc n)
  let ?b = "foldl (\<lambda>b j. b[a + j := b ! (c + j)]) buf [0..<n]"
  have ih: "?b ! k' = (if a \<le> k' \<and> k' < a + n \<and> k' < length buf then buf ! (k' - a + c) else buf ! k')"
    for k' using Suc.IH [of k'] Suc.prems by simp
  have len: "length ?b = length buf" by (rule copy_loop_length)
  have step: "foldl (\<lambda>b j. b[a + j := b ! (c + j)]) buf [0..<Suc n] = ?b[a + n := ?b ! (c + n)]"
    by simp
  have src: "?b ! (c + n) = buf ! (c + n)"
    using Suc.prems by (simp add: ih)
  show ?case
  proof (cases "k = a + n")
    case True
    show ?thesis
    proof (cases "a + n < length buf")
      case True
      have "?b[a + n := ?b ! (c + n)] ! (a + n) = ?b ! (c + n)"
        using True len by simp
      with src \<open>k = a + n\<close> True show ?thesis
        unfolding step by (simp add: add.commute)
    next
      case False
      then have "?b[a + n := ?b ! (c + n)] = ?b"
        using len by (simp add: list_update_beyond)
      with False \<open>k = a + n\<close> show ?thesis
        unfolding step by (simp add: ih)
    qed
  next
    case False
    then have "?b[a + n := ?b ! (c + n)] ! k = ?b ! k"
      by simp
    moreover from False have "(k < a + Suc n) = (k < a + n)" by auto
    ultimately show ?thesis
      unfolding step by (simp add: ih)
  qed
qed

lemma roll_row_length: "length (roll_row i buf) = length buf"
  unfolding roll_row_def by (rule copy_loop_length)

lemma roll_row_nth:
  "roll_row i buf ! k
     = (if i * NUM_CHANNELS \<le> k \<and> k < (i + 1) * NUM_CHANNELS \<and> k < length buf
        then buf ! (k + NUM_CHANNELS) else buf ! k)"
proof -
  have le: "i * NUM_CHANNELS + NUM_CHANNELS \<le> (i + 1) * NUM_CHANNELS" by simp
  have "i * NUM_CHANNELS \<le> k \<Longrightarrow> k - i * NUM_CHANNELS + (i + 1) * NUM_CHANNELS = k + NUM_CHANNELS"
    by simp
  then show ?thesis
    unfolding roll_row_def copy_loop_nth [OF le] by auto
qed

lemma roll_rows_length:
  "length (foldl (\<lambda>b i. roll_row i b) buf [0..<m]) = length buf"
  by (induction m) (simp_all add: roll_row_length)

lemma roll_rows_nth:
  "foldl (\<lambda>b i. roll_row i b) buf [0..<m] ! k
     = (if k < m * NUM_CHANNELS \<and> k < length buf then buf ! (k + NUM_CHANNELS) else buf ! k)"
proof (induction m arbitrary: k)
  case 0
  then show ?case by simp
next
  case (Suc m)
  let ?b = "foldl (\<lambda>b i. roll_row i b) buf [0..<m]"
  have len: "length ?b = length buf" by (rule roll_rows_length)
  have step: "foldl (\<lambda>b i. roll_row i b) buf [0..<Suc m] = roll_row m ?b" by simp
  have far: "?b ! (k + NUM_CHANNELS) = buf ! (k + NUM_CHANNELS)" if "m * NUM_CHANNELS \<le> k"
    using that by (simp add: Suc.IH)
  show ?case
  proof (cases "m * NUM_CHANNELS \<le> k")
    case True
    then show ?thesis
      unfolding step roll_row_nth len by (simp add: far Suc.IH)
  next
    case False
    then have "k < m * NUM_CHANNELS" by simp
    then show ?thesis
      unfolding step roll_row_nth len by (simp add: Suc.IH)
  qed
qed

lemma roll_window_nth:
  "length (roll_window L buf) = length buf"
  "roll_window L buf ! k
     = (if k < (WINDOW_LEN L - 1) * NUM_CHANNELS \<and> k < length buf
        then buf ! (k + NUM_CHANNELS) else buf ! k)"
  by (simp_all add: roll_window_def roll_rows_length roll_rows_nth)

lemma write_loop_length:
  "length (foldl (\<lambda>b j. b[a + j := g j]) buf [0..<n]) = length buf"
  by (induction n) simp_all

lemma write_loop_nth:
  "foldl (\<lambda>b j. b[a + j := g j]) buf [0..<n] ! k
     = (if a \<le> k \<and> k < a + n \<and> k < length buf then g (k - a) else buf ! k)"
proof (induction n arbitrary: k)
  case 0
  then show ?case by auto
next
  case (Suc n)
  let ?b = "foldl (\<lambda>b j. b[a + j := g j]) buf [0..<n]"
  have len: "length ?b = length buf" by (rule write_loop_length)
  have step: "foldl (\<lambda>b j. b[a + j := g j]) buf [0..<Suc n] = ?b[a + n := g n]" by simp
  show ?case
  proof (cases "k = a + n")
    case True
    show ?thesis
    proof (cases "a + n < length buf")
      case True
      with \<open>k = a + n\<close> len show ?thesis unfolding step by simp
    next
      case False
      then have "?b[a + n := g n] = ?b" using len by (simp add: list_update_beyond)
      with False \<open>k = a + n\<close> show ?thesis unfolding step by (simp add: Suc.IH)
    qed
  next
    case False
    then have "?b[a + n := g n] ! k = ?b ! k" by simp
    moreover from False have "(k < a + Suc n) = (k < a + n)" by auto
    ultimately show ?thesis unfolding step by (simp add: Suc.IH)
  qed
qed

lemma standardize_into_nth:
  "length (standardize_into L f buf) = length buf"
  "standardize_into L f buf ! k
     = (if final_frame_idx L \<le> k \<and> k < final_frame_idx L + NUM_CHANNELS \<and> k < length buf
        then f32 (f32 (f ! (k - final_frame_idx L) - means ! (k - final_frame_idx L))
               / std_devs ! (k - final_frame_idx L))
        else buf ! k)"
  by (simp_all add: standardize_into_def write_loop_length write_loop_nth)

lemma push_frame_eq:
  assumes "0 < WINDOW_LEN L" and "length buf = WINDOW_LEN L * NUM_CHANNELS"
  shows "push_frame L f buf = drop NUM_CHANNELS buf @ standardize f"
proof (rule nth_equalityI)
  have "WINDOW_LEN L * NUM_CHANNELS = (WINDOW_LEN L - 1) * NUM_CHANNELS + NUM_CHANNELS"
    using assms(1) by (cases "WINDOW_LEN L") simp_all
  then have split: "length buf = final_frame_idx L + NUM_CHANNELS"
    using assms(2) by (simp add: final_frame_idx_def)
  show "length (push_frame L f buf) = length (drop NUM_CHANNELS buf @ standardize f)"
    using split by (simp add: push_frame_def standardize_into_nth roll_window_nth standardize_def)
  fix k
  assume "k < length (push_frame L f buf)"
  then have k: "k < final_frame_idx L + NUM_CHANNELS"
    using split by (simp add: push_frame_def standardize_into_nth roll_window_nth)
  show "push_frame L f buf ! k = (drop NUM_CHANNELS buf @ standardize f) ! k"
  proof (cases "k < final_frame_idx L")
    case True
    then show ?thesis
      using split k
      by (simp add: push_frame_def standardize_into_nth roll_window_nth nth_append
          final_frame_idx_def add.commute)
  next
    case False
    with k have "k - final_frame_idx L < NUM_CHANNELS" by simp
    with False show ?thesis
      using split k
      by (simp add: push_frame_def standardize_into_nth roll_window_nth nth_append
          standardize_def)
  qed
qed

lemma length_standardize: "length (standardize f) = NUM_CHANNELS"
  by (simp add: standardize_def)

lemma length_push_frame:
  "length (push_frame L f buf) = length buf"
  by (simp add: push_frame_def standardize_into_nth roll_window_nth)

lemma pushes_eq:
  assumes "0 < WINDOW_LEN L" and "length buf = WINDOW_LEN L * NUM_CHANNELS"
  shows "pushes L fs buf = drop (length fs * NUM_CHANNELS) (buf @ concat (map standardize fs))"
  using assms(2)
proof (induction fs arbitrary: buf)
  case Nil
  then show ?case by (simp add: pushes_def)
next
  case (Cons f fs)
  have len: "length (push_frame L f buf) = WINDOW_LEN L * NUM_CHANNELS"
    using Cons.prems by (simp add: length_push_frame)
  have "pushes L (f # fs) buf = pushes L fs (push_frame L f buf)"
    by (simp add: pushes_def)
  also have "\<dots> = drop (length fs * NUM_CHANNELS) (push_frame L f buf @ concat (map standardize fs))"
    by (rule Cons.IH [OF len])
  also have "push_frame L f buf = drop NUM_CHANNELS buf @ standardize f"
    by (rule push_frame_eq [OF assms(1) Cons.prems])
  also have "drop (length fs * NUM_CHANNELS) ((drop NUM_CHANNELS buf @ standardize f) @ concat (map standardize fs))
      = drop (length fs * NUM_CHANNELS) (drop NUM_CHANNELS (buf @ concat (map standardize (f # fs))))"
  proof -
    have "NUM_CHANNELS \<le> length buf"
      using Cons.prems assms(1) by (cases "WINDOW_LEN L") simp_all
    then have "drop NUM_CHANNELS (buf @ ys) = drop NUM_CHANNELS buf @ ys" for ys
      by simp
    then show ?thesis by (simp only: concat.simps list.map append_assoc)
  qed
  also have "\<dots> = drop (length (f # fs) * NUM_CHANNELS) (buf @ concat (map standardize (f # fs)))"
  proof -
    have "length (f # fs) * NUM_CHANNELS = length fs * NUM_CHANNELS + NUM_CHANNELS" by simp
    then show ?thesis by (simp only: drop_drop)
  qed
  finally show ?case .
qed


section \<open>One call of \<open>loop\<close>, case by case\<close>

lemma pin_writes_append: "pin_writes (xs @ ys) = pin_writes xs @ pin_writes ys"
  by (induction xs rule: pin_writes.induct) simp_all

lemma drawn_append: "drawn (xs @ ys) = drawn xs @ drawn ys"
  by (induction xs rule: drawn.induct) simp_all

lemma classifier_calls_append:
  "classifier_calls (xs @ ys) = classifier_calls xs + classifier_calls ys"
  by (induction xs rule: classifier_calls.induct) simp_all

lemma printf_pairs_quiet:
  "pin_writes (concat (map (\<lambda>i. [EiPrintf (f i) (a i), EiPrintf (g i) (b i)]) ns)) = []"
  "drawn (concat (map (\<lambda>i. [EiPrintf (f i) (a i), EiPrintf (g i) (b i)]) ns)) = []"
  "classifier_calls (concat (map (\<lambda>i. [EiPrintf (f i) (a i), EiPrintf (g i) (b i)]) ns)) = 0"
  by (induction ns) simp_all

lemma print_predictions_quiet:
  "pin_writes (print_predictions L r) = []"
  "drawn (print_predictions L r) = []"
  "classifier_calls (print_predictions L r) = 0"
  unfolding print_predictions_def by (rule printf_pairs_quiet)+

lemma loop_completed:
  assumes "SAMPLE_DELAY \<le> millis_gate inp - sample_timestamp s"
    and "bme680_read_sensor_data inp = 0"
    and "sgp_measure_iaq_blocking_read inp = STATUS_OK"
  shows "input_buf (fst (loop L inp s)) = push_frame L (read_frame inp) (input_buf s)"
    and "sample_timestamp (fst (loop L inp s)) = millis_stamp inp"
    and "cancel_pin (fst (loop L inp s))
           = (if classification (tick_result L inp s) 0 < CANCEL_THRESHOLD then HIGH else LOW)"
    and "pin_writes (snd (loop L inp s))
           = [(CANCEL_PIN, if classification (tick_result L inp s) 0 < CANCEL_THRESHOLD
                           then HIGH else LOW)]"
    and "drawn (snd (loop L inp s))
           = Sprintf ''%.0f'' [AFloat (classification (tick_result L inp s) 0)]
             # (if classification (tick_result L inp s) 0 < CANCEL_THRESHOLD then [Lit ''Done!'']
                else if toasting_in inp = HIGH then [Lit ''Toasting...''] else [])"
    and "classifier_calls (snd (loop L inp s)) = 1"
  using assms
  by (simp_all add: loop_def Let_def tick_result_def print_predictions_quiet
       pin_writes_append drawn_append classifier_calls_append split: prod.splits)


lemma loop_fault:
  assumes "SAMPLE_DELAY \<le> millis_gate inp - sample_timestamp s"
    and "bme680_read_sensor_data inp \<noteq> 0 \<or> sgp_measure_iaq_blocking_read inp \<noteq> STATUS_OK"
  shows "fst (loop L inp s) = s\<lparr>sample_timestamp := millis_stamp inp\<rparr>"
    and "snd (loop L inp s) = [SerialPrintln ''Error: Could not read from BME680'']
       \<or> snd (loop L inp s) = [SerialPrintln ''Error: Could not read from SGP30'']"
  using assms by (auto simp: loop_def Let_def)

lemma drop_frames:
  "drop (k * NUM_CHANNELS) (concat (map standardize fs)) = concat (map standardize (drop k fs))"
proof (induction fs arbitrary: k)
  case Nil
  then show ?case by simp
next
  case (Cons f fs)
  show ?case
  proof (cases k)
    case 0
    then show ?thesis by simp
  next
    case (Suc k')
    then show ?thesis
      using Cons.IH [of k'] by (simp add: length_standardize)
  qed
qed

lemma loop_window_cases:
  "input_buf (fst (loop L inp s)) = input_buf s
   \<or> input_buf (fst (loop L inp s)) = push_frame L (read_frame inp) (input_buf s)"
  by (simp add: loop_def Let_def split: prod.splits)

text \<open>The values the two tables hold, each entry evaluated on its own.\<close>

lemma means_literals_0:
  "f32 (f64 75.502) = 4948099 / 65536"
  "f32 (f64 8.4883) = 2225157 / 262144"
  "f32 (f64 14913.9847) = 954495 / 64"
  by code_simp+

lemma means_literals_1:
  "f32 (f64 32933.7305) = 8431035 / 256"
  "f32 (f64 2.5958) = 5443787 / 2097152"
  "f32 (f64 2.2113) = 579679 / 262144"
  by code_simp+

lemma means_literals_2:
  "f32 (f64 2.6475) = 2776105 / 1048576"
  "f32 (f64 2.1576) = 4524815 / 2097152"
  "f32 (f64 2.277) = 4775215 / 2097152"
  by code_simp+

lemmas means_literals = means_literals_0 means_literals_1 means_literals_2


lemma std_devs_literals_0:
  "f32 (f64 23.2281) = 6089107 / 262144"
  "f32 (f64 9.0292) = 4733901 / 524288"
  "f32 (f64 18230.8385) = 9334189 / 512"
  by code_simp+

lemma std_devs_literals_1:
  "f32 (f64 24429.9224) = 1563515 / 64"
  "f32 (f64 0.3656) = 3066875 / 8388608"
  "f32 (f64 0.5479) = 9192237 / 16777216"
  by code_simp+

lemma std_devs_literals_2:
  "f32 (f64 0.3673) = 12324543 / 33554432"
  "f32 (f64 0.4927) = 16532269 / 33554432"
  "f32 (f64 0.593) = 9948889 / 16777216"
  by code_simp+

lemmas std_devs_literals = std_devs_literals_0 std_devs_literals_1 std_devs_literals_2


lemma means_values:
  "means = [4948099 / 65536, 2225157 / 262144, 954495 / 64, 8431035 / 256,
            5443787 / 2097152, 579679 / 262144, 2776105 / 1048576, 4524815 / 2097152,
            4775215 / 2097152]"
  by (simp only: means_def list.map means_literals)

lemma std_devs_values:
  "std_devs = [6089107 / 262144, 4733901 / 524288, 9334189 / 512, 1563515 / 64,
               3066875 / 8388608, 9192237 / 16777216, 12324543 / 33554432,
               16532269 / 33554432, 9948889 / 16777216]"
  by (simp only: std_devs_def list.map std_devs_literals)

lemma std_devs_nonzero: "i < NUM_CHANNELS \<Longrightarrow> std_devs ! i \<noteq> 0"
  by (simp add: std_devs_values NUM_CHANNELS_def nth_Cons')

lemma push_frame_parts:
  assumes "0 < WINDOW_LEN L" and "length buf = WINDOW_LEN L * NUM_CHANNELS"
  shows "take (length buf - NUM_CHANNELS) (push_frame L F buf) = drop NUM_CHANNELS buf"
    and "drop (length buf - NUM_CHANNELS) (push_frame L F buf) = standardize F"
  by (simp_all add: push_frame_eq [OF assms])

lemma loop_completed_last:
  assumes "SAMPLE_DELAY \<le> millis_gate inp - sample_timestamp s"
    and "bme680_read_sensor_data inp = 0"
    and "sgp_measure_iaq_blocking_read inp = STATUS_OK"
  shows "last (snd (loop L inp s)) = SprPushSprite 0 0"
  using assms by (simp add: loop_def Let_def split: prod.splits)

lemma tick_result_indep:
  "tick_result L (inp\<lparr>toasting_in := t\<rparr>) (s\<lparr>cancel_pin := c\<rparr>) = tick_result L inp s"
  by (simp add: tick_result_def read_frame_def)

section \<open>The debouncer, seen on its four statics\<close>

lemma advance_mode_fields:
  "mode (fst (advance_mode x s)) = next_mode (mode s)"
  "btn_state (fst (advance_mode x s)) = btn_state s"
  "last_btn_state (fst (advance_mode x s)) = last_btn_state s"
  "last_dbnc_time (fst (advance_mode x s)) = last_dbnc_time s"
  by (simp_all add: advance_mode_def next_mode_def Let_def)

lemma collect_sample_fields:
  "mode (fst (collect_sample x s)) = mode s"
  "btn_state (fst (collect_sample x s)) = btn_state s"
  "last_btn_state (fst (collect_sample x s)) = last_btn_state s"
  "last_dbnc_time (fst (collect_sample x s)) = last_dbnc_time s"
  by (simp_all add: collect_sample_def Let_def)

lemma debounce_button_fields:
  "last_btn_state (fst (debounce_button x s)) = btn_reading x"
  "last_dbnc_time (fst (debounce_button x s))
     = (if btn_reading x \<noteq> last_btn_state s then millis_dbnc x else last_dbnc_time s)"
  "btn_state (fst (debounce_button x s))
     = (if millis_check x
             - (if btn_reading x \<noteq> last_btn_state s then millis_dbnc x else last_dbnc_time s)
           > DEBOUNCE_DELAY
           \<and> btn_reading x \<noteq> btn_state s
        then btn_reading x else btn_state s)"
  "mode (fst (debounce_button x s))
     = (if millis_check x
             - (if btn_reading x \<noteq> last_btn_state s then millis_dbnc x else last_dbnc_time s)
           > DEBOUNCE_DELAY
           \<and> btn_reading x \<noteq> btn_state s \<and> btn_reading x = LOW
        then next_mode (mode s) else mode s)"
  by (simp_all add: debounce_button_def Let_def split_def advance_mode_fields)

lemma fst_collect_loop:
  "fst (collect_loop x s) = fst (collect_sample x (fst (debounce_button x s)))"
  by (simp add: collect_loop_def split_def Let_def)

lemma collect_loop_fields:
  "last_btn_state (fst (collect_loop x s)) = btn_reading x"
  "last_dbnc_time (fst (collect_loop x s))
     = (if btn_reading x \<noteq> last_btn_state s then millis_dbnc x else last_dbnc_time s)"
  "btn_state (fst (collect_loop x s))
     = (if millis_check x
             - (if btn_reading x \<noteq> last_btn_state s then millis_dbnc x else last_dbnc_time s)
           > DEBOUNCE_DELAY
           \<and> btn_reading x \<noteq> btn_state s
        then btn_reading x else btn_state s)"
  "mode (fst (collect_loop x s))
     = (if millis_check x
             - (if btn_reading x \<noteq> last_btn_state s then millis_dbnc x else last_dbnc_time s)
           > DEBOUNCE_DELAY
           \<and> btn_reading x \<noteq> btn_state s \<and> btn_reading x = LOW
        then next_mode (mode s) else mode s)"
  by (simp_all only: fst_collect_loop collect_sample_fields debounce_button_fields)

lemma next_mode_neq: "next_mode m \<noteq> m"
  by (auto simp: next_mode_def NUM_MODES_def MODE_IDLE_def word_le_nat_alt)


lemma collect_run_Cons:
  "fst (collect_run (x # xs) s) = fst (collect_run xs (fst (collect_loop x s)))"
  by (simp add: split_def Let_def)

lemma bouncing_no_transition:
  assumes "bouncing (last_btn_state s) tchg tr"
    and "case tchg of None \<Rightarrow> last_btn_state s = HIGH | Some t \<Rightarrow> last_dbnc_time s = t"
  shows "mode_transitions tr s = 0 \<and> mode (fst (collect_run tr s)) = mode s"
  using assms
proof (induction tr arbitrary: s tchg)
  case Nil
  then show ?case by simp
next
  case (Cons x xs)
  let ?s1 = "fst (collect_loop x s)"
  let ?tchg1 = "if btn_reading x \<noteq> last_btn_state s then Some (millis_dbnc x) else tchg"
  from Cons.prems(1)
  have short: "case ?tchg1 of None \<Rightarrow> True | Some t \<Rightarrow> millis_check x - t \<le> DEBOUNCE_DELAY"
    and rest: "bouncing (btn_reading x) ?tchg1 xs"
    by (simp_all add: Let_def)
  have inv: "case ?tchg1 of None \<Rightarrow> last_btn_state ?s1 = HIGH
             | Some t \<Rightarrow> last_dbnc_time ?s1 = t"
    using Cons.prems(2) by (auto simp: collect_loop_fields split: option.splits)
  have same: "mode ?s1 = mode s"
    using Cons.prems(2) short
    by (auto simp: collect_loop_fields split: option.splits if_splits)
  have "bouncing (last_btn_state ?s1) ?tchg1 xs"
    using rest by (simp add: collect_loop_fields)
  from Cons.IH [OF this inv] same show ?case
    by (simp add: collect_run_Cons del: collect_run.simps)
qed

lemma committed_press_no_transition:
  assumes "btn_state s = LOW" and "last_btn_state s = LOW"
    and "\<forall>y\<in>set tr. btn_reading y = LOW"
  shows "mode_transitions tr s = 0"
  using assms
proof (induction tr arbitrary: s)
  case Nil
  then show ?case by simp
next
  case (Cons x xs)
  let ?s1 = "fst (collect_loop x s)"
  from Cons.prems have x: "btn_reading x = LOW" by simp
  have "btn_state ?s1 = LOW" "last_btn_state ?s1 = LOW" "mode ?s1 = mode s"
    using Cons.prems(1,2) x by (simp_all add: collect_loop_fields)
  with Cons.IH [of ?s1] Cons.prems(3) show ?case by simp
qed

lemma pending_press_transitions:
  assumes "btn_state s = HIGH" and "last_btn_state s = LOW" and "last_dbnc_time s = t0"
    and "\<forall>y\<in>set tr. btn_reading y = LOW"
  shows "mode_transitions tr s
           = (if \<exists>y\<in>set tr. millis_check y - t0 > DEBOUNCE_DELAY then 1 else 0)"
  using assms
proof (induction tr arbitrary: s)
  case Nil
  then show ?case by simp
next
  case (Cons x xs)
  let ?s1 = "fst (collect_loop x s)"
  from Cons.prems have x: "btn_reading x = LOW" and xs: "\<forall>y\<in>set xs. btn_reading y = LOW"
    by simp_all
  have last1: "last_btn_state ?s1 = LOW" and t1: "last_dbnc_time ?s1 = t0"
    using Cons.prems(2,3) x by (simp_all add: collect_loop_fields)
  show ?case
  proof (cases "millis_check x - t0 > DEBOUNCE_DELAY")
    case True
    then have "btn_state ?s1 = LOW" and "mode ?s1 = next_mode (mode s)"
      using Cons.prems(1,2,3) x by (simp_all add: collect_loop_fields)
    with committed_press_no_transition [OF _ last1 xs] True show ?thesis
      by (simp add: next_mode_neq)
  next
    case False
    then have "btn_state ?s1 = HIGH" and "mode ?s1 = mode s"
      using Cons.prems(1,2,3) x by (simp_all add: collect_loop_fields)
    with Cons.IH [OF _ last1 t1 xs] False show ?thesis
      by simp
  qed
qed

lemma sustained_press_transitions:
  assumes "btn_state s = HIGH" and "last_btn_state s = HIGH"
    and "\<forall>y\<in>set (x # xs). btn_reading y = LOW"
  shows "mode_transitions (x # xs) s
           = (if \<exists>y\<in>set (x # xs). millis_check y - millis_dbnc x > DEBOUNCE_DELAY
              then 1 else 0)"
proof -
  let ?s1 = "fst (collect_loop x s)"
  from assms(3) have x: "btn_reading x = LOW" and xs: "\<forall>y\<in>set xs. btn_reading y = LOW"
    by simp_all
  have last1: "last_btn_state ?s1 = LOW" and t1: "last_dbnc_time ?s1 = millis_dbnc x"
    using assms(2) x by (simp_all add: collect_loop_fields)
  show ?thesis
  proof (cases "millis_check x - millis_dbnc x > DEBOUNCE_DELAY")
    case True
    then have "btn_state ?s1 = LOW" and "mode ?s1 = next_mode (mode s)"
      using assms(1,2) x by (simp_all add: collect_loop_fields)
    with committed_press_no_transition [OF _ last1 xs] True show ?thesis
      by (simp add: next_mode_neq)
  next
    case False
    then have "btn_state ?s1 = HIGH" and "mode ?s1 = mode s"
      using assms(1,2) x by (simp_all add: collect_loop_fields)
    with pending_press_transitions [OF _ last1 t1 xs] False show ?thesis
      by simp
  qed
qed

lemma dbnc_of_collect_loop: "dbnc_of (fst (collect_loop x s)) = dbnc_step x (dbnc_of s)"
  by (simp add: dbnc_of_def collect_loop_fields)

lemma dbnc_of_collect_run: "dbnc_of (fst (collect_run tr s)) = dbnc_run tr (dbnc_of s)"
proof (induction tr arbitrary: s)
  case Nil
  then show ?case by simp
next
  case (Cons x xs)
  then show ?case
    by (simp add: collect_run_Cons dbnc_of_collect_loop del: collect_run.simps)
qed

lemma mode_transitions_dbnc: "mode_transitions tr s = dbnc_transitions tr (dbnc_of s)"
proof (induction tr arbitrary: s)
  case Nil
  then show ?case by simp
next
  case (Cons x xs)
  have "mode (fst (collect_loop x s)) = fst (dbnc_step x (dbnc_of s))"
    using dbnc_of_collect_loop [of x s] by (simp add: dbnc_of_def)
  moreover have "mode s = fst (dbnc_of s)" by (simp add: dbnc_of_def)
  ultimately show ?case
    using Cons.IH [of "fst (collect_loop x s)"] by (simp add: dbnc_of_collect_loop)
qed

lemma poll_fields:
  "btn_reading (poll t lvl) = lvl"
  "millis_dbnc (poll t lvl) = t"
  "millis_check (poll t lvl) = t"
  by (simp_all add: poll_def)

lemma dbnc_of_collect_init: "dbnc_of (collect_init a b) = (MODE_IDLE, LOW, HIGH, 0)"
  by (simp add: dbnc_of_def collect_init_def)

lemmas dbnc_eval =
  poll_fields dbnc_of_collect_init next_mode_def DEBOUNCE_DELAY_def NUM_MODES_def
  MODE_IDLE_def MODE_BACKGROUND_def MODE_TOASTING_def MODE_BURNT_def

lemma not_4_le_1: "\<not> (4::u8) \<le> 1"
  by (simp add: word_le_nat_alt)

lemma mode_dbnc: "mode s = fst (dbnc_of s)"
  by (simp add: dbnc_of_def)

lemma btn_state_dbnc: "btn_state s = fst (snd (dbnc_of s))"
  by (simp add: dbnc_of_def)

lemma last_btn_state_dbnc: "last_btn_state s = fst (snd (snd (dbnc_of s)))"
  by (simp add: dbnc_of_def)

lemma mode_lt_cases: "m < NUM_MODES \<Longrightarrow> m = 0 \<or> m = 1 \<or> m = 2 \<or> m = 3"
proof -
  assume "m < NUM_MODES"
  then have "unat m < 4" by (simp add: NUM_MODES_def word_less_nat_alt)
  then have "unat m = 0 \<or> unat m = 1 \<or> unat m = 2 \<or> unat m = 3" by arith
  then show ?thesis
    by (simp add: word_unat_eq_iff)
qed

lemma next_mode_table:
  "next_mode MODE_IDLE = MODE_BACKGROUND"
  "next_mode MODE_BACKGROUND = MODE_TOASTING"
  "next_mode MODE_TOASTING = MODE_BURNT"
  "next_mode MODE_BURNT = MODE_IDLE"
  by (simp_all add: next_mode_def NUM_MODES_def MODE_IDLE_def MODE_BACKGROUND_def
      MODE_TOASTING_def MODE_BURNT_def not_4_le_1)

lemma next_mode_unat:
  assumes "m < NUM_MODES"
  shows "unat (next_mode m) = (unat m + 1) mod 4" and "next_mode m < NUM_MODES"
  using mode_lt_cases [OF assms]
  by (auto simp: next_mode_def NUM_MODES_def MODE_IDLE_def not_4_le_1)

lemma collect_loop_mode_cases:
  "mode (fst (collect_loop x s)) = mode s \<or> mode (fst (collect_loop x s)) = next_mode (mode s)"
  by (simp add: collect_loop_fields)

section \<open>The sample gate\<close>




section \<open>The claims\<close>

text \<open>
  \<^bold>\<open>C1.\<close> In a call of \<open>loop\<close> that is due and whose two sensor reads succeed, the cancel pin
  is driven HIGH exactly when the time-to-burnt value (index 0 of the classification) is
  strictly below \<open>CANCEL_THRESHOLD\<close>: the pin state and the single \<open>digitalWrite\<close> agree
  on it. At \<open>CANCEL_THRESHOLD - 1\<close> the pin is HIGH, at \<open>CANCEL_THRESHOLD\<close> it is LOW.
\<close>

theorem decision_threshold:
  assumes "SAMPLE_DELAY \<le> millis_gate inp - sample_timestamp s"
    and "bme680_read_sensor_data inp = 0"
    and "sgp_measure_iaq_blocking_read inp = STATUS_OK"
  shows "((cancel_pin (fst (loop L inp s)) = HIGH)
            = (classification (tick_result L inp s) 0 < CANCEL_THRESHOLD))
       \<and> ((pin_writes (snd (loop L inp s)) = [(CANCEL_PIN, HIGH)])
            = (classification (tick_result L inp s) 0 < CANCEL_THRESHOLD))
       \<and> (classification (tick_result L inp s) 0 = CANCEL_THRESHOLD - 1
            \<longrightarrow> cancel_pin (fst (loop L inp s)) = HIGH)
       \<and> (classification (tick_result L inp s) 0 = CANCEL_THRESHOLD
            \<longrightarrow> cancel_pin (fst (loop L inp s)) = LOW)"
  by (simp add: loop_completed [OF assms])

theorem decision_threshold_witness:
  "SAMPLE_DELAY \<le> millis_gate (tick_in 500 HIGH 0 0) - sample_timestamp (boot_state (stub_library 2 39) 0)
   \<and> classification (tick_result (stub_library 2 39) (tick_in 500 HIGH 0 0)
        (boot_state (stub_library 2 39) 0)) 0 = CANCEL_THRESHOLD - 1
   \<and> cancel_pin (fst (loop (stub_library 2 39) (tick_in 500 HIGH 0 0)
        (boot_state (stub_library 2 39) 0))) = HIGH
   \<and> classification (tick_result (stub_library 2 40) (tick_in 500 HIGH 0 0)
        (boot_state (stub_library 2 40) 0)) 0 = CANCEL_THRESHOLD
   \<and> cancel_pin (fst (loop (stub_library 2 40) (tick_in 500 HIGH 0 0)
        (boot_state (stub_library 2 40) 0))) = LOW"
proof -
  have due: "SAMPLE_DELAY \<le> millis_gate (tick_in 500 HIGH 0 0) - sample_timestamp (boot_state L 0)" for L
    by (simp add: SAMPLE_DELAY_def tick_in_def boot_state_def)
  have bme: "bme680_read_sensor_data (tick_in 500 HIGH 0 0) = 0"
    by (simp add: tick_in_def)
  have sgp: "sgp_measure_iaq_blocking_read (tick_in 500 HIGH 0 0) = STATUS_OK"
    by (simp add: tick_in_def STATUS_OK_def)
  have v39: "classification (tick_result (stub_library 2 39) (tick_in 500 HIGH 0 0)
        (boot_state (stub_library 2 39) 0)) 0 = CANCEL_THRESHOLD - 1"
    by (simp add: tick_result_def stub_library_def CANCEL_THRESHOLD_def)
  have v40: "classification (tick_result (stub_library 2 40) (tick_in 500 HIGH 0 0)
        (boot_state (stub_library 2 40) 0)) 0 = CANCEL_THRESHOLD"
    by (simp add: tick_result_def stub_library_def CANCEL_THRESHOLD_def)
  show ?thesis
    using decision_threshold [OF due bme sgp, of "stub_library 2 39"]
      decision_threshold [OF due bme sgp, of "stub_library 2 40"] due v39 v40
    by simp
qed


text \<open>
  \<^bold>\<open>C2.\<close> Pushing is first-in first-out on whole frames. Starting from a window of
  \<open>WINDOW_LEN\<close> frames, after any number of pushes the window is the old contents followed
  by the standardized pushed frames, with that many whole frames dropped from the front;
  once at least \<open>WINDOW_LEN\<close> frames were pushed it is exactly the last \<open>WINDOW_LEN\<close> of
  them, oldest first. A call of \<open>loop\<close> leaves the window as it was or pushes one whole
  frame: no state in between is ever left behind.
\<close>

theorem window_fifo:
  assumes "0 < WINDOW_LEN L" and "length buf = WINDOW_LEN L * NUM_CHANNELS"
  shows "pushes L fs buf = drop (length fs * NUM_CHANNELS) (buf @ concat (map standardize fs))
       \<and> (WINDOW_LEN L \<le> length fs \<longrightarrow>
            pushes L fs buf = concat (map standardize (drop (length fs - WINDOW_LEN L) fs)))
       \<and> (input_buf (fst (loop L inp s)) = input_buf s
            \<or> input_buf (fst (loop L inp s)) = push_frame L (read_frame inp) (input_buf s))"
proof (intro conjI impI)
  show all: "pushes L fs buf = drop (length fs * NUM_CHANNELS) (buf @ concat (map standardize fs))"
    by (rule pushes_eq [OF assms])
  show "input_buf (fst (loop L inp s)) = input_buf s
     \<or> input_buf (fst (loop L inp s)) = push_frame L (read_frame inp) (input_buf s)"
    by (rule loop_window_cases)
  assume full: "WINDOW_LEN L \<le> length fs"
  then have "length fs * NUM_CHANNELS
               = length buf + (length fs - WINDOW_LEN L) * NUM_CHANNELS"
    using assms(2) by (simp add: algebra_simps flip: add_mult_distrib)
  then have "drop (length fs * NUM_CHANNELS) (buf @ concat (map standardize fs))
               = drop ((length fs - WINDOW_LEN L) * NUM_CHANNELS) (concat (map standardize fs))"
    by simp
  with all show "pushes L fs buf = concat (map standardize (drop (length fs - WINDOW_LEN L) fs))"
    by (simp add: drop_frames)
qed


theorem window_fifo_witness:
  "0 < WINDOW_LEN (stub_library 2 0)
   \<and> length (replicate 18 0 :: real list) = WINDOW_LEN (stub_library 2 0) * NUM_CHANNELS
   \<and> WINDOW_LEN (stub_library 2 0) \<le> length [frame_a, frame_b, frame_c]
   \<and> pushes (stub_library 2 0) [frame_a, frame_b, frame_c] (replicate 18 0)
       = standardize frame_b @ standardize frame_c"
proof -
  have wl: "0 < WINDOW_LEN (stub_library 2 0)"
    by (simp add: WINDOW_LEN_def stub_library_def)
  have len: "length (replicate 18 0 :: real list) = WINDOW_LEN (stub_library 2 0) * NUM_CHANNELS"
    by (simp add: WINDOW_LEN_def stub_library_def NUM_CHANNELS_def)
  have full: "WINDOW_LEN (stub_library 2 0) \<le> length [frame_a, frame_b, frame_c]"
    by (simp add: WINDOW_LEN_def stub_library_def)
  have last2: "length [frame_a, frame_b, frame_c] - WINDOW_LEN (stub_library 2 0) = Suc 0"
    by (simp add: WINDOW_LEN_def stub_library_def)
  have "pushes (stub_library 2 0) [frame_a, frame_b, frame_c] (replicate 18 0)
          = concat (map standardize (drop (length [frame_a, frame_b, frame_c]
              - WINDOW_LEN (stub_library 2 0)) [frame_a, frame_b, frame_c]))"
    using window_fifo [OF wl len, of "[frame_a, frame_b, frame_c]" "tick_in 0 LOW 0 0"
        "boot_state (stub_library 2 0) 0"] full
    by blast
  then have "pushes (stub_library 2 0) [frame_a, frame_b, frame_c] (replicate 18 0)
          = standardize frame_b @ standardize frame_c"
    unfolding last2 by simp
  with wl len full show ?thesis by blast
qed

text \<open>
  \<^bold>\<open>C3.\<close> After a push of the raw frame \<open>F\<close> the last \<open>NUM_CHANNELS\<close> slots of the window, and
  no others, hold the new frame: slot \<open>i\<close> of them holds \<open>(F[i] - means[i]) / std_devs[i]\<close> as
  \<open>float\<close> arithmetic evaluates it (the difference rounded, then the quotient rounded), the
  slots before them hold the earlier frames moved up by one frame, and the length of the
  window is unchanged. The same slot holds that value after a call of \<open>loop\<close> that is due and
  reads its sensors without fault. \<open>means\<close> and \<open>std_devs\<close> are the constant tables of the
  sketch (no state holds them): they hold the \<open>float\<close> values of the literals in the source,
  listed in the statement, and no entry of \<open>std_devs\<close> is 0. The rolling-inference test
  sketch contains the same two loops.
\<close>

theorem standardized_slot:
  assumes "0 < WINDOW_LEN L" and "length buf = WINDOW_LEN L * NUM_CHANNELS"
    and "i < NUM_CHANNELS"
  shows "length (push_frame L F buf) = length buf
       \<and> drop (length buf - NUM_CHANNELS) (push_frame L F buf) = standardize F
       \<and> take (length buf - NUM_CHANNELS) (push_frame L F buf) = drop NUM_CHANNELS buf
       \<and> push_frame L F buf ! (length buf - NUM_CHANNELS + i)
           = f32 (f32 (F ! i - means ! i) / std_devs ! i)
       \<and> means = [4948099 / 65536, 2225157 / 262144, 954495 / 64, 8431035 / 256,
            5443787 / 2097152, 579679 / 262144, 2776105 / 1048576, 4524815 / 2097152,
            4775215 / 2097152]
       \<and> std_devs = [6089107 / 262144, 4733901 / 524288, 9334189 / 512, 1563515 / 64,
            3066875 / 8388608, 9192237 / 16777216, 12324543 / 33554432,
            16532269 / 33554432, 9948889 / 16777216]
       \<and> std_devs ! i \<noteq> 0
       \<and> (SAMPLE_DELAY \<le> millis_gate inp - sample_timestamp s
            \<and> bme680_read_sensor_data inp = 0
            \<and> sgp_measure_iaq_blocking_read inp = STATUS_OK
            \<and> input_buf s = buf \<longrightarrow>
              input_buf (fst (loop L inp s)) ! (length buf - NUM_CHANNELS + i)
                = f32 (f32 (read_frame inp ! i - means ! i) / std_devs ! i))"
proof -
  have newest: "drop (length buf - NUM_CHANNELS) (push_frame L F' buf) = standardize F'" for F'
    by (rule push_frame_parts(2) [OF assms(1,2)])
  have older: "take (length buf - NUM_CHANNELS) (push_frame L F buf) = drop NUM_CHANNELS buf"
    by (rule push_frame_parts(1) [OF assms(1,2)])
  have "NUM_CHANNELS \<le> length buf"
    using assms(1,2) by (cases "WINDOW_LEN L") simp_all
  then have inside: "length buf - NUM_CHANNELS + i \<le> length (push_frame L F' buf)" for F'
    using assms(3) by (simp add: length_push_frame)
  have slot: "push_frame L F' buf ! (length buf - NUM_CHANNELS + i)
                = f32 (f32 (F' ! i - means ! i) / std_devs ! i)" for F'
  proof -
    have "push_frame L F' buf ! (length buf - NUM_CHANNELS + i)
            = drop (length buf - NUM_CHANNELS) (push_frame L F' buf) ! i"
      using inside [of F'] by simp
    also have "\<dots> = standardize F' ! i"
      by (simp only: newest)
    also have "\<dots> = f32 (f32 (F' ! i - means ! i) / std_devs ! i)"
      using assms(3) by (simp add: standardize_def)
    finally show ?thesis .
  qed
  have completed: "input_buf (fst (loop L inp s)) ! (length buf - NUM_CHANNELS + i)
                = f32 (f32 (read_frame inp ! i - means ! i) / std_devs ! i)"
    if "SAMPLE_DELAY \<le> millis_gate inp - sample_timestamp s
            \<and> bme680_read_sensor_data inp = 0
            \<and> sgp_measure_iaq_blocking_read inp = STATUS_OK
            \<and> input_buf s = buf"
    using that slot [of "read_frame inp"] by (simp add: loop_completed)
  show ?thesis
    using newest [of F] older slot [of F] std_devs_nonzero [OF assms(3)] completed
      means_values std_devs_values length_push_frame [of L F buf]
    by blast
qed

theorem standardized_slot_witness:
  "0 < WINDOW_LEN (stub_library 2 39)
   \<and> length (input_buf (boot_state (stub_library 2 39) 0))
        = WINDOW_LEN (stub_library 2 39) * NUM_CHANNELS
   \<and> (2::nat) < NUM_CHANNELS
   \<and> SAMPLE_DELAY \<le> millis_gate (tick_in 500 HIGH 0 0)
        - sample_timestamp (boot_state (stub_library 2 39) 0)
   \<and> bme680_read_sensor_data (tick_in 500 HIGH 0 0) = 0
   \<and> sgp_measure_iaq_blocking_read (tick_in 500 HIGH 0 0) = STATUS_OK
   \<and> read_frame (tick_in 500 HIGH 0 0) ! 2 = 400
   \<and> means ! 2 = 954495 / 64
   \<and> std_devs ! 2 = 9334189 / 512
   \<and> input_buf (fst (loop (stub_library 2 39) (tick_in 500 HIGH 0 0)
        (boot_state (stub_library 2 39) 0))) ! 11
       = - 13356723 / 16777216"
proof -
  have wl: "0 < WINDOW_LEN (stub_library 2 39)"
    by (simp add: WINDOW_LEN_def stub_library_def)
  have len: "length (input_buf (boot_state (stub_library 2 39) 0))
        = WINDOW_LEN (stub_library 2 39) * NUM_CHANNELS"
    by (simp add: boot_state_def)
  have i: "(2::nat) < NUM_CHANNELS"
    by (simp add: NUM_CHANNELS_def)
  have due: "SAMPLE_DELAY \<le> millis_gate (tick_in 500 HIGH 0 0)
        - sample_timestamp (boot_state (stub_library 2 39) 0)"
    by (simp add: SAMPLE_DELAY_def tick_in_def boot_state_def)
  have bme: "bme680_read_sensor_data (tick_in 500 HIGH 0 0) = 0"
    by (simp add: tick_in_def)
  have sgp: "sgp_measure_iaq_blocking_read (tick_in 500 HIGH 0 0) = STATUS_OK"
    by (simp add: tick_in_def STATUS_OK_def)
  have co2: "read_frame (tick_in 500 HIGH 0 0) ! 2 = 400"
    by (simp add: read_frame_def tick_in_def Let_def)
  have m: "means ! 2 = 954495 / 64"
    by (simp add: means_values)
  have sd: "std_devs ! 2 = 9334189 / 512"
    by (simp add: std_devs_values)
  have val: "f32 (f32 (400 - 954495 / 64) / (9334189 / 512)) = - 13356723 / 16777216"
    by code_simp
  have idx: "length (input_buf (boot_state (stub_library 2 39) 0)) - NUM_CHANNELS + 2 = 11"
    by (simp add: boot_state_def WINDOW_LEN_def stub_library_def NUM_CHANNELS_def)
  have "input_buf (fst (loop (stub_library 2 39) (tick_in 500 HIGH 0 0)
          (boot_state (stub_library 2 39) 0)))
          ! (length (input_buf (boot_state (stub_library 2 39) 0)) - NUM_CHANNELS + 2)
        = f32 (f32 (read_frame (tick_in 500 HIGH 0 0) ! 2 - means ! 2) / std_devs ! 2)"
    using standardized_slot [OF wl len i, where inp = "tick_in 500 HIGH 0 0"
        and s = "boot_state (stub_library 2 39) 0"] due bme sgp
    by blast
  then have "input_buf (fst (loop (stub_library 2 39) (tick_in 500 HIGH 0 0)
          (boot_state (stub_library 2 39) 0))) ! 11 = - 13356723 / 16777216"
    unfolding idx co2 m sd val .
  with wl len i due bme sgp co2 m sd show ?thesis by blast
qed

text \<open>
  \<^bold>\<open>C4.\<close> A call of \<open>loop\<close> that is due and in which the BME680 or the SGP30 read reports a
  fault (the other sensors return no status) is abandoned: the window and the cancel pin are
  as before, nothing is written to the pin or drawn, the classifier is not called, and the
  only output is the error line on the serial port. The sketch goes on: the sample timestamp
  was taken, and the next call that is due and reads its sensors without fault pushes its
  frame into the unchanged window and calls the classifier.
\<close>

theorem sensor_fault_aborts_tick:
  assumes "SAMPLE_DELAY \<le> millis_gate inp - sample_timestamp s"
    and "bme680_read_sensor_data inp \<noteq> 0 \<or> sgp_measure_iaq_blocking_read inp \<noteq> STATUS_OK"
  shows "input_buf (fst (loop L inp s)) = input_buf s
       \<and> cancel_pin (fst (loop L inp s)) = cancel_pin s
       \<and> pin_writes (snd (loop L inp s)) = []
       \<and> drawn (snd (loop L inp s)) = []
       \<and> classifier_calls (snd (loop L inp s)) = 0
       \<and> (snd (loop L inp s) = [SerialPrintln ''Error: Could not read from BME680'']
          \<or> snd (loop L inp s) = [SerialPrintln ''Error: Could not read from SGP30''])
       \<and> sample_timestamp (fst (loop L inp s)) = millis_stamp inp
       \<and> (SAMPLE_DELAY \<le> millis_gate inp' - millis_stamp inp
            \<and> bme680_read_sensor_data inp' = 0
            \<and> sgp_measure_iaq_blocking_read inp' = STATUS_OK \<longrightarrow>
              input_buf (fst (loop L inp' (fst (loop L inp s))))
                = push_frame L (read_frame inp') (input_buf s)
              \<and> classifier_calls (snd (loop L inp' (fst (loop L inp s)))) = 1)"
proof -
  have st: "fst (loop L inp s) = s\<lparr>sample_timestamp := millis_stamp inp\<rparr>"
    by (rule loop_fault(1) [OF assms])
  have ev: "snd (loop L inp s) = [SerialPrintln ''Error: Could not read from BME680'']
          \<or> snd (loop L inp s) = [SerialPrintln ''Error: Could not read from SGP30'']"
    by (rule loop_fault(2) [OF assms])
  have quiet: "pin_writes (snd (loop L inp s)) = [] \<and> drawn (snd (loop L inp s)) = []
          \<and> classifier_calls (snd (loop L inp s)) = 0"
    using ev by auto
  have retry: "input_buf (fst (loop L inp' (fst (loop L inp s))))
                = push_frame L (read_frame inp') (input_buf s)
              \<and> classifier_calls (snd (loop L inp' (fst (loop L inp s)))) = 1"
    if "SAMPLE_DELAY \<le> millis_gate inp' - millis_stamp inp"
      and "bme680_read_sensor_data inp' = 0"
      and "sgp_measure_iaq_blocking_read inp' = STATUS_OK"
    unfolding st using that by (simp add: loop_completed)
  show ?thesis
    using ev quiet retry by (simp add: st)
qed

theorem sensor_fault_aborts_tick_witness:
  "SAMPLE_DELAY \<le> millis_gate (tick_in 500 HIGH 1 0)
      - sample_timestamp (boot_state (stub_library 2 39) 0)
   \<and> bme680_read_sensor_data (tick_in 500 HIGH 1 0) \<noteq> 0
   \<and> SAMPLE_DELAY \<le> millis_gate (tick_in 1000 HIGH 0 0) - millis_stamp (tick_in 500 HIGH 1 0)
   \<and> bme680_read_sensor_data (tick_in 1000 HIGH 0 0) = 0
   \<and> sgp_measure_iaq_blocking_read (tick_in 1000 HIGH 0 0) = STATUS_OK
   \<and> input_buf (fst (loop (stub_library 2 39) (tick_in 500 HIGH 1 0)
        (boot_state (stub_library 2 39) 0))) = input_buf (boot_state (stub_library 2 39) 0)
   \<and> cancel_pin (fst (loop (stub_library 2 39) (tick_in 500 HIGH 1 0)
        (boot_state (stub_library 2 39) 0))) = cancel_pin (boot_state (stub_library 2 39) 0)
   \<and> classifier_calls (snd (loop (stub_library 2 39) (tick_in 500 HIGH 1 0)
        (boot_state (stub_library 2 39) 0))) = 0
   \<and> input_buf (fst (loop (stub_library 2 39) (tick_in 1000 HIGH 0 0)
        (fst (loop (stub_library 2 39) (tick_in 500 HIGH 1 0)
           (boot_state (stub_library 2 39) 0)))))
       = push_frame (stub_library 2 39) (read_frame (tick_in 1000 HIGH 0 0))
           (input_buf (boot_state (stub_library 2 39) 0))"
proof -
  have due: "SAMPLE_DELAY \<le> millis_gate (tick_in 500 HIGH 1 0)
      - sample_timestamp (boot_state (stub_library 2 39) 0)"
    by (simp add: SAMPLE_DELAY_def tick_in_def boot_state_def)
  have bad: "bme680_read_sensor_data (tick_in 500 HIGH 1 0) \<noteq> 0"
    by (simp add: tick_in_def)
  then have fault: "bme680_read_sensor_data (tick_in 500 HIGH 1 0) \<noteq> 0
      \<or> sgp_measure_iaq_blocking_read (tick_in 500 HIGH 1 0) \<noteq> STATUS_OK"
    by (rule disjI1)
  have due2: "SAMPLE_DELAY \<le> millis_gate (tick_in 1000 HIGH 0 0)
      - millis_stamp (tick_in 500 HIGH 1 0)"
    by (simp add: SAMPLE_DELAY_def tick_in_def)
  have bme: "bme680_read_sensor_data (tick_in 1000 HIGH 0 0) = 0"
    by (simp add: tick_in_def)
  have sgp: "sgp_measure_iaq_blocking_read (tick_in 1000 HIGH 0 0) = STATUS_OK"
    by (simp add: tick_in_def STATUS_OK_def)
  show ?thesis
    using sensor_fault_aborts_tick [OF due fault, of "stub_library 2 39" "tick_in 1000 HIGH 0 0"]
      due bad due2 bme sgp
    by blast
qed

text \<open>
  \<^bold>\<open>C5.\<close> The claim has the controller re-arm when the toasting-sense input goes false while
  the actuator is asserted. The sketch reads that input only to choose the status text:
  with the estimate still below the threshold the pin stays HIGH after the input went LOW.
  What holds instead: the controller keeps no state. In every call that is due and reads its
  sensors without fault the pin is HIGH when the estimate is below \<open>CANCEL_THRESHOLD\<close> and
  LOW when it is not, whatever the pin was before and whatever the toasting-sense input is.
\<close>

theorem actuator_memoryless:
  assumes "SAMPLE_DELAY \<le> millis_gate inp - sample_timestamp s"
    and "bme680_read_sensor_data inp = 0"
    and "sgp_measure_iaq_blocking_read inp = STATUS_OK"
  shows "(classification (tick_result L inp s) 0 < CANCEL_THRESHOLD
            \<longrightarrow> cancel_pin (fst (loop L inp s)) = HIGH)
       \<and> (\<not> classification (tick_result L inp s) 0 < CANCEL_THRESHOLD
            \<longrightarrow> cancel_pin (fst (loop L inp s)) = LOW)
       \<and> cancel_pin (fst (loop L (inp\<lparr>toasting_in := t\<rparr>) (s\<lparr>cancel_pin := c\<rparr>)))
           = cancel_pin (fst (loop L inp s))"
proof -
  have due': "SAMPLE_DELAY \<le> millis_gate (inp\<lparr>toasting_in := t\<rparr>)
                 - sample_timestamp (s\<lparr>cancel_pin := c\<rparr>)"
    and ok': "bme680_read_sensor_data (inp\<lparr>toasting_in := t\<rparr>) = 0"
      "sgp_measure_iaq_blocking_read (inp\<lparr>toasting_in := t\<rparr>) = STATUS_OK"
    using assms by simp_all
  show ?thesis
    by (simp add: loop_completed(3) [OF assms] loop_completed(3) [OF due' ok']
        tick_result_indep)
qed


theorem actuator_memoryless_witness:
  "SAMPLE_DELAY \<le> millis_gate (tick_in 500 HIGH 0 0)
      - sample_timestamp (boot_state (stub_library 2 10) 0)
   \<and> classification (tick_result (stub_library 2 10) (tick_in 500 HIGH 0 0)
        (boot_state (stub_library 2 10) 0)) 0 < CANCEL_THRESHOLD
   \<and> cancel_pin (fst (loop (stub_library 2 10) (tick_in 500 HIGH 0 0)
        (boot_state (stub_library 2 10) 0))) = HIGH
   \<and> \<not> classification (tick_result (stub_library 2 50) (tick_in 500 HIGH 0 0)
        (boot_state (stub_library 2 50) 0)) 0 < CANCEL_THRESHOLD
   \<and> cancel_pin (fst (loop (stub_library 2 50) (tick_in 500 HIGH 0 0)
        (boot_state (stub_library 2 50) 0))) = LOW
   \<and> cancel_pin (fst (loop (stub_library 2 50) ((tick_in 500 HIGH 0 0)\<lparr>toasting_in := LOW\<rparr>)
        ((boot_state (stub_library 2 50) 0)\<lparr>cancel_pin := HIGH\<rparr>))) = LOW"
proof -
  have due: "SAMPLE_DELAY \<le> millis_gate (tick_in 500 HIGH 0 0)
      - sample_timestamp (boot_state L 0)" for L
    by (simp add: SAMPLE_DELAY_def tick_in_def boot_state_def)
  have bme: "bme680_read_sensor_data (tick_in 500 HIGH 0 0) = 0"
    by (simp add: tick_in_def)
  have sgp: "sgp_measure_iaq_blocking_read (tick_in 500 HIGH 0 0) = STATUS_OK"
    by (simp add: tick_in_def STATUS_OK_def)
  have lt: "classification (tick_result (stub_library 2 10) (tick_in 500 HIGH 0 0)
        (boot_state (stub_library 2 10) 0)) 0 < CANCEL_THRESHOLD"
    by (simp add: tick_result_def stub_library_def CANCEL_THRESHOLD_def)
  have ge: "\<not> classification (tick_result (stub_library 2 50) (tick_in 500 HIGH 0 0)
        (boot_state (stub_library 2 50) 0)) 0 < CANCEL_THRESHOLD"
    by (simp add: tick_result_def stub_library_def CANCEL_THRESHOLD_def)
  show ?thesis
    using actuator_memoryless [OF due bme sgp, where L = "stub_library 2 10" and t = LOW and c = HIGH]
      actuator_memoryless [OF due bme sgp, where L = "stub_library 2 50" and t = LOW and c = HIGH]
      due lt ge
    by simp
qed

text \<open>
  The claim of C5 as it stands fails: the first call asserts the pin with the toaster on; in
  the second the toasting-sense input is LOW and the estimate is still 10, and the pin is
  HIGH after it.
\<close>

theorem rearm_counterexample:
  "cancel_pin (fst (loop (stub_library 2 10) (tick_in 500 HIGH 0 0)
        (boot_state (stub_library 2 10) 0))) = HIGH
   \<and> toasting_in (tick_in 1000 LOW 0 0) = LOW
   \<and> cancel_pin (fst (loop (stub_library 2 10) (tick_in 1000 LOW 0 0)
        (fst (loop (stub_library 2 10) (tick_in 500 HIGH 0 0)
           (boot_state (stub_library 2 10) 0))))) = HIGH"
proof -
  have ok: "bme680_read_sensor_data (tick_in t lvl 0 0) = 0"
    "sgp_measure_iaq_blocking_read (tick_in t lvl 0 0) = STATUS_OK" for t lvl
    by (simp_all add: tick_in_def STATUS_OK_def)
  have due1: "SAMPLE_DELAY \<le> millis_gate (tick_in 500 HIGH 0 0)
      - sample_timestamp (boot_state (stub_library 2 10) 0)"
    by (simp add: SAMPLE_DELAY_def tick_in_def boot_state_def)
  have due2: "SAMPLE_DELAY \<le> millis_gate (tick_in 1000 LOW 0 0)
      - sample_timestamp (fst (loop (stub_library 2 10) (tick_in 500 HIGH 0 0)
           (boot_state (stub_library 2 10) 0)))"
    by (simp add: loop_completed(2) [OF due1 ok]) (simp add: SAMPLE_DELAY_def tick_in_def)
  have ttb: "classification (tick_result (stub_library 2 10) inp s) 0 < CANCEL_THRESHOLD" for inp s
    by (simp add: tick_result_def stub_library_def CANCEL_THRESHOLD_def)
  show ?thesis
    by (simp add: loop_completed(3) [OF due1 ok] loop_completed(3) [OF due2 ok] ttb)
       (simp add: tick_in_def)
qed

text \<open>
  \<^bold>\<open>C6.\<close> The claim has the pin and the display written on every tick. A tick abandoned on a
  sensor fault writes neither, and a completed tick with the estimate at or above the
  threshold and the toasting input LOW draws the estimate but no status text. What holds
  instead: in every call that is due and reads its sensors without fault, the pin is written
  exactly once, to HIGH when the estimate is below \<open>CANCEL_THRESHOLD\<close> and to LOW otherwise;
  the estimate is drawn, followed by "Done!" when the pin is HIGH, by "Toasting..." when it is
  LOW and the toasting input is HIGH, and by nothing otherwise; the sprite is pushed last.
\<close>

theorem actuator_written_on_completed_tick:
  assumes "SAMPLE_DELAY \<le> millis_gate inp - sample_timestamp s"
    and "bme680_read_sensor_data inp = 0"
    and "sgp_measure_iaq_blocking_read inp = STATUS_OK"
  shows "pin_writes (snd (loop L inp s))
           = [(CANCEL_PIN, if classification (tick_result L inp s) 0 < CANCEL_THRESHOLD
                           then HIGH else LOW)]
       \<and> cancel_pin (fst (loop L inp s))
           = (if classification (tick_result L inp s) 0 < CANCEL_THRESHOLD then HIGH else LOW)
       \<and> drawn (snd (loop L inp s))
           = Sprintf ''%.0f'' [AFloat (classification (tick_result L inp s) 0)]
             # (if classification (tick_result L inp s) 0 < CANCEL_THRESHOLD then [Lit ''Done!'']
                else if toasting_in inp = HIGH then [Lit ''Toasting...''] else [])
       \<and> last (snd (loop L inp s)) = SprPushSprite 0 0"
  by (simp only: loop_completed [OF assms] loop_completed_last [OF assms] simp_thms)

theorem actuator_written_on_completed_tick_witness:
  "SAMPLE_DELAY \<le> millis_gate (tick_in 500 HIGH 0 0)
      - sample_timestamp (boot_state (stub_library 2 50) 0)
   \<and> bme680_read_sensor_data (tick_in 500 HIGH 0 0) = 0
   \<and> sgp_measure_iaq_blocking_read (tick_in 500 HIGH 0 0) = STATUS_OK
   \<and> pin_writes (snd (loop (stub_library 2 50) (tick_in 500 HIGH 0 0)
        (boot_state (stub_library 2 50) 0))) = [(CANCEL_PIN, LOW)]
   \<and> drawn (snd (loop (stub_library 2 50) (tick_in 500 HIGH 0 0)
        (boot_state (stub_library 2 50) 0)))
       = [Sprintf ''%.0f'' [AFloat 50], Lit ''Toasting...'']"
proof -
  have due: "SAMPLE_DELAY \<le> millis_gate (tick_in 500 HIGH 0 0)
      - sample_timestamp (boot_state (stub_library 2 50) 0)"
    by (simp add: SAMPLE_DELAY_def tick_in_def boot_state_def)
  have bme: "bme680_read_sensor_data (tick_in 500 HIGH 0 0) = 0"
    by (simp add: tick_in_def)
  have sgp: "sgp_measure_iaq_blocking_read (tick_in 500 HIGH 0 0) = STATUS_OK"
    by (simp add: tick_in_def STATUS_OK_def)
  have ttb: "classification (tick_result (stub_library 2 50) (tick_in 500 HIGH 0 0)
        (boot_state (stub_library 2 50) 0)) 0 = 50"
    by (simp add: tick_result_def stub_library_def)
  have lvl: "toasting_in (tick_in 500 HIGH 0 0) = HIGH"
    by (simp add: tick_in_def)
  show ?thesis
    using actuator_written_on_completed_tick [OF due bme sgp, of "stub_library 2 50"]
      due bme sgp
    by (simp add: ttb lvl CANCEL_THRESHOLD_def)
qed

text \<open>
  The claim of C6 as it stands fails: a due call whose BME680 read fails prints the error
  line and writes neither pin nor display; a completed call with the estimate at 50 and the
  toasting input LOW draws the estimate and no status text.
\<close>

theorem stale_pin_counterexample:
  "SAMPLE_DELAY \<le> millis_gate (tick_in 500 HIGH 1 0)
      - sample_timestamp (boot_state (stub_library 2 10) 0)
   \<and> snd (loop (stub_library 2 10) (tick_in 500 HIGH 1 0) (boot_state (stub_library 2 10) 0))
       = [SerialPrintln ''Error: Could not read from BME680'']
   \<and> pin_writes (snd (loop (stub_library 2 10) (tick_in 500 HIGH 1 0)
        (boot_state (stub_library 2 10) 0))) = []
   \<and> drawn (snd (loop (stub_library 2 10) (tick_in 500 HIGH 1 0)
        (boot_state (stub_library 2 10) 0))) = []
   \<and> SAMPLE_DELAY \<le> millis_gate (tick_in 500 LOW 0 0)
      - sample_timestamp (boot_state (stub_library 2 50) 0)
   \<and> drawn (snd (loop (stub_library 2 50) (tick_in 500 LOW 0 0)
        (boot_state (stub_library 2 50) 0))) = [Sprintf ''%.0f'' [AFloat 50]]"
proof -
  have due: "SAMPLE_DELAY \<le> millis_gate (tick_in 500 lvl bme sgp)
      - sample_timestamp (boot_state L 0)" for L lvl bme sgp
    by (simp add: SAMPLE_DELAY_def tick_in_def boot_state_def)
  have ev: "snd (loop (stub_library 2 10) (tick_in 500 HIGH 1 0)
        (boot_state (stub_library 2 10) 0)) = [SerialPrintln ''Error: Could not read from BME680'']"
    by (simp add: loop_def SAMPLE_DELAY_def tick_in_def boot_state_def)
  have ok: "bme680_read_sensor_data (tick_in 500 LOW 0 0) = 0"
    "sgp_measure_iaq_blocking_read (tick_in 500 LOW 0 0) = STATUS_OK"
    by (simp_all add: tick_in_def STATUS_OK_def)
  have dr: "drawn (snd (loop (stub_library 2 50) (tick_in 500 LOW 0 0)
        (boot_state (stub_library 2 50) 0))) = [Sprintf ''%.0f'' [AFloat 50]]"
    by (simp add: loop_completed(5) [OF due ok])
       (simp add: tick_result_def stub_library_def CANCEL_THRESHOLD_def tick_in_def)
  show ?thesis
    using due ev dr by simp
qed

text \<open>
  \<^bold>\<open>C7.\<close> The claim has the callback return an error code for a request outside the buffer.
  \<open>get_signal_data\<close> checks nothing: it returns \<open>EIDSP_OK\<close> for the slice that starts at the end
  of the buffer and for the one that runs over it. What holds instead: the callback always
  fills \<open>length\<close> slots and returns \<open>EIDSP_OK\<close>, and for a request inside the buffer the slots
  hold the \<open>length\<close> contiguous floats that start at \<open>offset\<close>.
\<close>

theorem slice_in_bounds:
  "fst (get_signal_data buf offset len) = EIDSP_OK
   \<and> length (snd (get_signal_data buf offset len)) = len
   \<and> (offset + len \<le> length buf \<longrightarrow>
        snd (get_signal_data buf offset len) = map Some (take len (drop offset buf)))"
proof (intro conjI impI)
  show "fst (get_signal_data buf offset len) = EIDSP_OK"
    by (simp add: get_signal_data_def)
  show "length (snd (get_signal_data buf offset len)) = len"
    by (simp add: get_signal_data_def)
  assume inb: "offset + len \<le> length buf"
  show "snd (get_signal_data buf offset len) = map Some (take len (drop offset buf))"
  proof (rule nth_equalityI)
    show "length (snd (get_signal_data buf offset len))
            = length (map Some (take len (drop offset buf)))"
      using inb by (simp add: get_signal_data_def)
    fix i
    assume "i < length (snd (get_signal_data buf offset len))"
    then have "i < len" by (simp add: get_signal_data_def)
    with inb show "snd (get_signal_data buf offset len) ! i
                     = map Some (take len (drop offset buf)) ! i"
      by (simp add: get_signal_data_def)
  qed
qed

theorem slice_in_bounds_witness:
  "(1::nat) + 2 \<le> length [10, 20, 30, 40 :: real]
   \<and> fst (get_signal_data [10, 20, 30, 40] 1 2) = EIDSP_OK
   \<and> snd (get_signal_data [10, 20, 30, 40] 1 2) = [Some 20, Some 30]"
proof -
  have inb: "(1::nat) + 2 \<le> length [10, 20, 30, 40 :: real]" by simp
  have "take 2 (drop 1 [10, 20, 30, 40 :: real]) = [20, 30]" by simp
  with inb show ?thesis
    using slice_in_bounds [of "[10, 20, 30, 40]" 1 2] by simp
qed


text \<open>
  The claim of C7 as it stands fails: on a window of 18 floats the requests \<open>(18, 1)\<close> and
  \<open>(17, 2)\<close> reach past the end and still return \<open>EIDSP_OK\<close>.
\<close>

theorem slice_bounds_counterexample:
  "\<not> 18 + 1 \<le> length (replicate 18 (0::real))
   \<and> get_signal_data (replicate 18 0) 18 1 = (EIDSP_OK, [None])
   \<and> \<not> 17 + 2 \<le> length (replicate 18 (0::real))
   \<and> get_signal_data (replicate 18 0) 17 2 = (EIDSP_OK, [Some 0, None])"
  by (simp add: get_signal_data_def upt_rec)

text \<open>
  \<^bold>\<open>C8.\<close> The claim has a level held for at least \<open>DEBOUNCE_DELAY\<close> ms advance the mode once.
  The sketch tests \<open>millis() - last_dbnc_time > DEBOUNCE_DELAY\<close> and advances only when the
  settled level is LOW: a press seen for exactly \<open>DEBOUNCE_DELAY\<close> ms advances nothing, and
  neither does a release however long it is held. What holds instead: started with the last
  raw level HIGH, a button whose level never stays the same for more than \<open>DEBOUNCE_DELAY\<close>
  ms after a change changes the mode in no call; and started with the debounced and the raw
  level HIGH, a press (every call reads LOW) changes the mode exactly once if some call comes
  more than \<open>DEBOUNCE_DELAY\<close> ms after the call that saw the press, and not at all otherwise.
\<close>

theorem debounce:
  "(last_btn_state s = HIGH \<and> bouncing HIGH None tr \<longrightarrow>
      mode_transitions tr s = 0 \<and> mode (fst (collect_run tr s)) = mode s)
   \<and> (btn_state s' = HIGH \<and> last_btn_state s' = HIGH
        \<and> (\<forall>y\<in>set (x # xs). btn_reading y = LOW) \<longrightarrow>
      mode_transitions (x # xs) s'
        = (if \<exists>y\<in>set (x # xs). millis_check y - millis_dbnc x > DEBOUNCE_DELAY
           then 1 else 0))"
proof (intro conjI impI)
  assume a: "last_btn_state s = HIGH \<and> bouncing HIGH None tr"
  then have "bouncing (last_btn_state s) None tr" by simp
  moreover have "case None of None \<Rightarrow> last_btn_state s = HIGH
                 | Some t \<Rightarrow> last_dbnc_time s = t"
    using a by simp
  ultimately have "mode_transitions tr s = 0 \<and> mode (fst (collect_run tr s)) = mode s"
    by (rule bouncing_no_transition)
  then show "mode_transitions tr s = 0" and "mode (fst (collect_run tr s)) = mode s"
    by simp_all
next
  assume "btn_state s' = HIGH \<and> last_btn_state s' = HIGH
        \<and> (\<forall>y\<in>set (x # xs). btn_reading y = LOW)"
  then show "mode_transitions (x # xs) s'
        = (if \<exists>y\<in>set (x # xs). millis_check y - millis_dbnc x > DEBOUNCE_DELAY
           then 1 else 0)"
    using sustained_press_transitions [of s' x xs] by blast
qed



theorem debounce_witness:
  "last_btn_state (collect_init 90 90) = HIGH
   \<and> bouncing HIGH None [poll 100 HIGH, poll 1000 LOW, poll 1010 HIGH, poll 1020 LOW,
         poll 1050 HIGH, poll 1070 HIGH]
   \<and> mode_transitions [poll 100 HIGH, poll 1000 LOW, poll 1010 HIGH, poll 1020 LOW,
         poll 1050 HIGH, poll 1070 HIGH] (collect_init 90 90) = 0
   \<and> btn_state (fst (collect_loop (poll 100 HIGH) (collect_init 90 90))) = HIGH
   \<and> last_btn_state (fst (collect_loop (poll 100 HIGH) (collect_init 90 90))) = HIGH
   \<and> DEBOUNCE_DELAY < millis_check (poll 1031 LOW) - millis_dbnc (poll 1000 LOW)
   \<and> mode_transitions [poll 1000 LOW, poll 1010 LOW, poll 1031 LOW, poll 1500 LOW]
        (fst (collect_loop (poll 100 HIGH) (collect_init 90 90))) = 1"
proof -
  have up: "last_btn_state (collect_init 90 90) = HIGH"
    by (simp add: collect_init_def)
  have bn: "bouncing HIGH None [poll 100 HIGH, poll 1000 LOW, poll 1010 HIGH, poll 1020 LOW,
         poll 1050 HIGH, poll 1070 HIGH]"
    by (simp add: poll_fields DEBOUNCE_DELAY_def)
  have rel: "btn_state (fst (collect_loop (poll 100 HIGH) (collect_init 90 90))) = HIGH"
    "last_btn_state (fst (collect_loop (poll 100 HIGH) (collect_init 90 90))) = HIGH"
    by (simp_all add: btn_state_dbnc last_btn_state_dbnc dbnc_of_collect_loop dbnc_eval)
  have low: "\<forall>y\<in>set [poll 1000 LOW, poll 1010 LOW, poll 1031 LOW, poll 1500 LOW].
               btn_reading y = LOW"
    by (simp add: poll_fields)
  have long: "DEBOUNCE_DELAY < millis_check (poll 1031 LOW) - millis_dbnc (poll 1000 LOW)"
    by (simp add: poll_fields DEBOUNCE_DELAY_def)
  then have ex: "\<exists>y\<in>set [poll 1000 LOW, poll 1010 LOW, poll 1031 LOW, poll 1500 LOW].
               DEBOUNCE_DELAY < millis_check y - millis_dbnc (poll 1000 LOW)"
    by simp
  have a: "mode_transitions [poll 100 HIGH, poll 1000 LOW, poll 1010 HIGH, poll 1020 LOW,
         poll 1050 HIGH, poll 1070 HIGH] (collect_init 90 90) = 0"
    using debounce [where s = "collect_init 90 90" and tr = "[poll 100 HIGH, poll 1000 LOW,
         poll 1010 HIGH, poll 1020 LOW, poll 1050 HIGH, poll 1070 HIGH]"] up bn
    by blast
  have b: "mode_transitions [poll 1000 LOW, poll 1010 LOW, poll 1031 LOW, poll 1500 LOW]
        (fst (collect_loop (poll 100 HIGH) (collect_init 90 90)))
        = (if \<exists>y\<in>set [poll 1000 LOW, poll 1010 LOW, poll 1031 LOW, poll 1500 LOW].
               DEBOUNCE_DELAY < millis_check y - millis_dbnc (poll 1000 LOW) then 1 else 0)"
    using debounce [where s' = "fst (collect_loop (poll 100 HIGH) (collect_init 90 90))"
        and x = "poll 1000 LOW" and xs = "[poll 1010 LOW, poll 1031 LOW, poll 1500 LOW]"]
      rel low
    by blast
  have "mode_transitions [poll 1000 LOW, poll 1010 LOW, poll 1031 LOW, poll 1500 LOW]
        (fst (collect_loop (poll 100 HIGH) (collect_init 90 90))) = 1"
    unfolding b using ex by (simp only: if_True)
  with up bn a rel long show ?thesis by blast
qed

text \<open>
  The claim of C8 as it stands fails: after power-up and one call with the button up, a press
  seen at 1000, 1010, 1020 and 1030 ms (held for \<open>DEBOUNCE_DELAY\<close> ms) changes the mode in no
  call; and after a committed press, a release held for 500 ms changes it in no call either.
\<close>

theorem debounce_counterexample:
  "millis_check (poll 1030 LOW) - millis_dbnc (poll 1000 LOW) = DEBOUNCE_DELAY
   \<and> mode_transitions [poll 100 HIGH, poll 1000 LOW, poll 1010 LOW, poll 1020 LOW, poll 1030 LOW]
        (collect_init 90 90) = 0
   \<and> btn_state (fst (collect_run [poll 100 HIGH, poll 1000 LOW, poll 1031 LOW]
        (collect_init 90 90))) = LOW
   \<and> mode_transitions [poll 2000 HIGH, poll 2100 HIGH, poll 2500 HIGH]
        (fst (collect_run [poll 100 HIGH, poll 1000 LOW, poll 1031 LOW] (collect_init 90 90)))
       = 0"
  by (simp add: mode_transitions_dbnc btn_state_dbnc dbnc_of_collect_run dbnc_eval
      del: collect_run.simps)

text \<open>
  \<^bold>\<open>C9.\<close> The mode only ever steps to its successor: a call of \<open>loop\<close> leaves the mode or
  moves it one step along IDLE, BACKGROUND, TOASTING, BURNT, IDLE. Along any list of calls
  the mode reached is the mode at the start plus the number of mode changes, modulo 4; so
  four changes from IDLE lead back to IDLE, as four presses from power-up show.
\<close>

theorem mode_cycle:
  assumes "mode s < NUM_MODES"
  shows "unat (mode (fst (collect_run tr s))) = (unat (mode s) + mode_transitions tr s) mod 4
       \<and> mode (fst (collect_run tr s)) < NUM_MODES
       \<and> (mode (fst (collect_loop x s)) = mode s
          \<or> mode (fst (collect_loop x s)) = next_mode (mode s))
       \<and> next_mode MODE_IDLE = MODE_BACKGROUND
       \<and> next_mode MODE_BACKGROUND = MODE_TOASTING
       \<and> next_mode MODE_TOASTING = MODE_BURNT
       \<and> next_mode MODE_BURNT = MODE_IDLE"
proof -
  have run: "unat (mode (fst (collect_run tr s))) = (unat (mode s) + mode_transitions tr s) mod 4
       \<and> mode (fst (collect_run tr s)) < NUM_MODES"
    using assms
  proof (induction tr arbitrary: s)
    case Nil
    then have "unat (mode s) < 4" by (simp add: NUM_MODES_def word_less_nat_alt)
    with Nil show ?case by simp
  next
    case (Cons y ys)
    let ?s1 = "fst (collect_loop y s)"
    show ?case
    proof (cases "mode ?s1 = mode s")
      case True
      with Cons.IH [of ?s1] Cons.prems show ?thesis
        by (simp add: collect_run_Cons del: collect_run.simps)
    next
      case False
      with collect_loop_mode_cases [of y s] have nxt: "mode ?s1 = next_mode (mode s)" by simp
      then have lt: "mode ?s1 < NUM_MODES"
        and un: "unat (mode ?s1) = (unat (mode s) + 1) mod 4"
        using next_mode_unat [OF Cons.prems] by simp_all
      from Cons.IH [OF lt] False un show ?thesis
        by (simp add: collect_run_Cons mod_simps del: collect_run.simps)
    qed
  qed
  show ?thesis
    using run collect_loop_mode_cases [of x s] next_mode_table by simp
qed

theorem mode_cycle_witness:
  "mode (collect_init 90 90) < NUM_MODES
   \<and> mode (fst (collect_run (poll 100 HIGH # press 1000) (collect_init 90 90))) = MODE_BACKGROUND
   \<and> mode (fst (collect_run (poll 100 HIGH # press 1000 @ press 2000) (collect_init 90 90)))
       = MODE_TOASTING
   \<and> mode (fst (collect_run (poll 100 HIGH # press 1000 @ press 2000 @ press 3000)
        (collect_init 90 90))) = MODE_BURNT
   \<and> mode (fst (collect_run (poll 100 HIGH # press 1000 @ press 2000 @ press 3000 @ press 4000)
        (collect_init 90 90))) = MODE_IDLE
   \<and> mode_transitions (poll 100 HIGH # press 1000 @ press 2000 @ press 3000 @ press 4000)
        (collect_init 90 90) = 4
   \<and> unat (mode (fst (collect_run (poll 100 HIGH # press 1000 @ press 2000 @ press 3000
        @ press 4000) (collect_init 90 90))))
       = (unat (mode (collect_init 90 90))
          + mode_transitions (poll 100 HIGH # press 1000 @ press 2000 @ press 3000 @ press 4000)
              (collect_init 90 90)) mod 4"
proof -
  have idle: "mode (collect_init 90 90) < NUM_MODES"
    by (simp add: collect_init_def MODE_IDLE_def NUM_MODES_def)
  have modes:
    "mode (fst (collect_run (poll 100 HIGH # press 1000) (collect_init 90 90))) = MODE_BACKGROUND"
    "mode (fst (collect_run (poll 100 HIGH # press 1000 @ press 2000) (collect_init 90 90)))
       = MODE_TOASTING"
    "mode (fst (collect_run (poll 100 HIGH # press 1000 @ press 2000 @ press 3000)
        (collect_init 90 90))) = MODE_BURNT"
    "mode (fst (collect_run (poll 100 HIGH # press 1000 @ press 2000 @ press 3000 @ press 4000)
        (collect_init 90 90))) = MODE_IDLE"
    by (simp_all add: mode_dbnc dbnc_of_collect_run press_def dbnc_eval not_4_le_1
        del: collect_run.simps)
  have four: "mode_transitions (poll 100 HIGH # press 1000 @ press 2000 @ press 3000 @ press 4000)
        (collect_init 90 90) = 4"
    by (simp add: mode_transitions_dbnc press_def dbnc_eval not_4_le_1)
  show ?thesis
    using mode_cycle [OF idle, of "poll 100 HIGH # press 1000 @ press 2000 @ press 3000 @ press 4000"
        "poll 100 HIGH"] idle modes four
    by simp
qed




end
